theory Spec2Isabelle
  imports Main
begin

section \<open>Python values used by calls.py\<close>

text \<open>
  A Python \<open>str\<close> is a sequence of code points. It is modelled as a \<open>string\<close> whose
  characters are the code points below 256, so \<open>length\<close> counts code points and the
  string methods below act on single characters as Python's do.
\<close>

datatype error =
    KeyError string
  | TypeError string
  | ValueError string
  | IndexError string
  | RequestError string

text \<open>\<open>str(e)\<close> of an exception: its message; for a \<open>KeyError\<close> the quoted key.\<close>

fun str_error :: \<open>error \<Rightarrow> string\<close> where
  \<open>str_error (KeyError k) = CHR 0x27 # k @ [CHR 0x27]\<close>
| \<open>str_error (TypeError m) = m\<close>
| \<open>str_error (ValueError m) = m\<close>
| \<open>str_error (IndexError m) = m\<close>
| \<open>str_error (RequestError m) = m\<close>

text \<open>\<open>str.isspace\<close> on one code point below 256.\<close>

definition isspace :: \<open>char \<Rightarrow> bool\<close> where
  \<open>isspace c =
     (let n = (of_char c :: nat)
      in (9 \<le> n \<and> n \<le> 13) \<or> (28 \<le> n \<and> n \<le> 32) \<or> n = 133 \<or> n = 160)\<close>

text \<open>\<open>str.rstrip()\<close>: trailing whitespace removed.\<close>

definition rstrip :: \<open>string \<Rightarrow> string\<close> where
  \<open>rstrip s = rev (dropWhile isspace (rev s))\<close>

text \<open>
  \<open>str.lower()\<close> on code points below 256: the letters A to Z and the upper-case
  letters of Latin-1 (U+00C0 to U+00DE without the multiplication sign U+00D7) move up
  by 32; every other code point is unchanged.
\<close>

definition lower_char :: \<open>char \<Rightarrow> char\<close> where
  \<open>lower_char c =
     (let n = (of_char c :: nat)
      in if (65 \<le> n \<and> n \<le> 90) \<or> (192 \<le> n \<and> n \<le> 214) \<or> (216 \<le> n \<and> n \<le> 222)
         then char_of (n + 32) else c)\<close>

definition lower :: \<open>string \<Rightarrow> string\<close> where
  \<open>lower s = map lower_char s\<close>

text \<open>
  \<open>s.split(sep, 1)\<close> for a separator of one character: at most one split, at the first
  occurrence of the separator.
\<close>

definition split1 :: \<open>char \<Rightarrow> string \<Rightarrow> string list\<close> where
  \<open>split1 sep s =
     (if sep \<in> set s
      then [takeWhile (\<lambda>c. c \<noteq> sep) s, tl (dropWhile (\<lambda>c. c \<noteq> sep) s)]
      else [s])\<close>

text \<open>\<open>xs[0]\<close>: raises \<open>IndexError\<close> on the empty list.\<close>

definition index0 :: \<open>'a list \<Rightarrow> error + 'a\<close> where
  \<open>index0 xs = (case xs of [] \<Rightarrow> Inl (IndexError ''list index out of range'') | x # _ \<Rightarrow> Inr x)\<close>

text \<open>
  \<open>fmt % (a1, ..., an)\<close> restricted to the \<open>%s\<close> conversion, the only one the source
  uses. The arguments are given already converted by \<open>str\<close>.
\<close>

fun percent :: \<open>string \<Rightarrow> string list \<Rightarrow> error + string\<close> where
  \<open>percent [] [] = Inr []\<close>
| \<open>percent [] (a # as) = Inl (TypeError ''not all arguments converted during string formatting'')\<close>
| \<open>percent (c # cs) as =
     (if c \<noteq> CHR ''%'' then
        (case percent cs as of Inl e \<Rightarrow> Inl e | Inr r \<Rightarrow> Inr (c # r))
      else
        (case cs of
           [] \<Rightarrow> Inl (ValueError ''incomplete format'')
         | d # ds \<Rightarrow>
             if d \<noteq> CHR ''s'' then Inl (ValueError ''unsupported format character'')
             else
               (case as of
                  [] \<Rightarrow> Inl (TypeError ''not enough arguments for format string'')
                | a # as' \<Rightarrow>
                    (case percent ds as' of Inl e \<Rightarrow> Inl e | Inr r \<Rightarrow> Inr (a @ r)))))\<close>

text \<open>\<open>str(n)\<close> for an integer: decimal digits, with a minus sign when negative.\<close>

function str_nat :: \<open>nat \<Rightarrow> string\<close> where
  \<open>str_nat n = (if n < 10 then [char_of (48 + n)] else str_nat (n div 10) @ [char_of (48 + n mod 10)])\<close>
  by pat_completeness auto
termination
  by (relation \<open>measure (\<lambda>n. n)\<close>) auto

declare str_nat.simps [simp del]

definition str_int :: \<open>int \<Rightarrow> string\<close> where
  \<open>str_int i = (if i < 0 then CHR ''-'' # str_nat (nat (- i)) else str_nat (nat i))\<close>

section \<open>The world the handlers act on\<close>

text \<open>
  \<open>stdout\<close> holds the lines printed, \<open>submitted\<close> the arguments of the \<open>send_bg\<close> tasks
  handed to the executor, in submission order, and \<open>posted\<close> the HTTP POST attempts made,
  each with its URL and body.
\<close>

record world =
  stdout :: \<open>string list\<close>
  submitted :: \<open>string list\<close>
  posted :: \<open>(string \<times> string) list\<close>

definition world0 :: world where
  \<open>world0 = \<lparr>stdout = [], submitted = [], posted = []\<rparr>\<close>

type_synonym 'a action = \<open>world \<Rightarrow> (error + 'a) \<times> world\<close>

definition print :: \<open>string \<Rightarrow> unit action\<close> where
  \<open>print line w = (Inr (), w\<lparr>stdout := stdout w @ [line]\<rparr>)\<close>

text \<open>\<open>executor.submit(send_bg, string)\<close>: the task joins the queue of the single worker.\<close>

definition executor_submit :: \<open>string \<Rightarrow> unit action\<close> where
  \<open>executor_submit string w = (Inr (), w\<lparr>submitted := submitted w @ [string]\<rparr>)\<close>

definition send :: \<open>string \<Rightarrow> unit action\<close> where
  \<open>send string w =
     (case print string w of
        (Inl e, w1) \<Rightarrow> (Inl e, w1)
      | (Inr _, w1) \<Rightarrow> executor_submit string w1)\<close>

section \<open>Events and handlers\<close>

text \<open>
  An event of the AMI client: its name and its fields. \<open>event[k]\<close> reads the field
  mapping and raises \<open>KeyError\<close> for a field that is absent.
\<close>

record event =
  name :: string
  keys :: \<open>string \<rightharpoonup> string\<close>

definition getitem :: \<open>event \<Rightarrow> string \<Rightarrow> error + string\<close> where
  \<open>getitem ev k = (case keys ev k of None \<Rightarrow> Inl (KeyError k) | Some v \<Rightarrow> Inr v)\<close>

text \<open>The expression \<open>s.split(' ', 1)[0].lower()\<close>, which three handlers apply to a name.\<close>

definition split_first_lower :: \<open>string \<Rightarrow> error + string\<close> where
  \<open>split_first_lower s =
     (case index0 (split1 CHR '' '' s) of Inl e \<Rightarrow> Inl e | Inr t \<Rightarrow> Inr (lower t))\<close>

definition on_incomming_call :: \<open>'s \<Rightarrow> event \<Rightarrow> unit action\<close> where
  \<open>on_incomming_call source event w =
     (case getitem event ''CallerIDNum'' of Inl e \<Rightarrow> (Inl e, w) | Inr a \<Rightarrow>
     (case getitem event ''Uniqueid'' of Inl e \<Rightarrow> (Inl e, w) | Inr b \<Rightarrow>
     (case getitem event ''Exten'' of Inl e \<Rightarrow> (Inl e, w) | Inr c \<Rightarrow>
     (case percent ''{"event": "Incoming Call", "remote": "%s", "callid": "%s", "dialed": "%s"}'' [a, b, c]
        of Inl e \<Rightarrow> (Inl e, w) | Inr s \<Rightarrow> send s w))))\<close>

definition on_hangup :: \<open>'s \<Rightarrow> event \<Rightarrow> unit action\<close> where
  \<open>on_hangup source event w =
     (case getitem event ''Uniqueid'' of Inl e \<Rightarrow> (Inl e, w) | Inr a \<Rightarrow>
     (case getitem event ''CallerIDNum'' of Inl e \<Rightarrow> (Inl e, w) | Inr b \<Rightarrow>
     (case percent ''{"event": "Hangup", "callid": "%s", "remote": "%s"}'' [a, b]
        of Inl e \<Rightarrow> (Inl e, w) | Inr s \<Rightarrow> send s w)))\<close>

definition on_accept :: \<open>'s \<Rightarrow> event \<Rightarrow> unit action\<close> where
  \<open>on_accept source event w =
     (case getitem event ''ConnectedLineName'' of Inl e \<Rightarrow> (Inl e, w) | Inr n \<Rightarrow>
      if n = ''<unknown>'' then
        (case getitem event ''Uniqueid'' of Inl e \<Rightarrow> (Inl e, w) | Inr a \<Rightarrow>
        (case getitem event ''CallerIDNum'' of Inl e \<Rightarrow> (Inl e, w) | Inr b \<Rightarrow>
        (case getitem event ''Exten'' of Inl e \<Rightarrow> (Inl e, w) | Inr c \<Rightarrow>
        (case percent ''{"event": "Accepted Call", "callid": "%s", "remote": "%s", "dialed": "%s"}'' [a, b, c]
           of Inl e \<Rightarrow> (Inl e, w) | Inr s \<Rightarrow> send s w))))
      else
        (case getitem event ''Uniqueid'' of Inl e \<Rightarrow> (Inl e, w) | Inr a \<Rightarrow>
        (case getitem event ''CallerIDNum'' of Inl e \<Rightarrow> (Inl e, w) | Inr b \<Rightarrow>
        (case getitem event ''Exten'' of Inl e \<Rightarrow> (Inl e, w) | Inr c \<Rightarrow>
        (case getitem event ''ConnectedLineName'' of Inl e \<Rightarrow> (Inl e, w) | Inr m \<Rightarrow>
        (case split_first_lower m of Inl e \<Rightarrow> (Inl e, w) | Inr u \<Rightarrow>
        (case percent ''{"event": "Accepted Call", "callid": "%s", "remote": "%s", "dialed": "%s", "user": "%s"}'' [a, b, c, u]
           of Inl e \<Rightarrow> (Inl e, w) | Inr s \<Rightarrow> send s w)))))))\<close>

definition on_outgoing_call :: \<open>'s \<Rightarrow> event \<Rightarrow> unit action\<close> where
  \<open>on_outgoing_call source event w =
     (case getitem event ''Uniqueid'' of Inl e \<Rightarrow> (Inl e, w) | Inr a \<Rightarrow>
     (case getitem event ''Exten'' of Inl e \<Rightarrow> (Inl e, w) | Inr b \<Rightarrow>
     (case getitem event ''CallerIDName'' of Inl e \<Rightarrow> (Inl e, w) | Inr m \<Rightarrow>
     (case split_first_lower m of Inl e \<Rightarrow> (Inl e, w) | Inr u \<Rightarrow>
     (case percent ''{"event": "Outgoing Call", "callid": "%s", "remote": "%s", "user": "%s"}'' [a, b, u]
        of Inl e \<Rightarrow> (Inl e, w) | Inr s \<Rightarrow> send s w)))))\<close>

definition on_transfer :: \<open>'s \<Rightarrow> event \<Rightarrow> unit action\<close> where
  \<open>on_transfer source event w =
     (case getitem event ''TransfereeUniqueid'' of Inl e \<Rightarrow> (Inl e, w) | Inr a \<Rightarrow>
     (case getitem event ''TransferTargetCallerIDName'' of Inl e \<Rightarrow> (Inl e, w) | Inr m \<Rightarrow>
     (case split_first_lower m of Inl e \<Rightarrow> (Inl e, w) | Inr u \<Rightarrow>
     (case percent ''{"event": "Transfer Call", "callid": "%s", "newuser": "%s"}'' [a, u]
        of Inl e \<Rightarrow> (Inl e, w) | Inr s \<Rightarrow> send s w))))\<close>

section \<open>Delivery\<close>

text \<open>
  \<open>requests.post\<close> is the environment: the outcome of the \<open>n\<close>-th POST attempt (counting
  from 0) to a URL with a body is either a response, with its status code and text, or
  an exception, given by its description \<open>str(e)\<close>. Every exception it raises is an
  \<open>Exception\<close>, which is what \<open>except Exception\<close> catches.
\<close>

text \<open>A response: its \<open>status_code\<close> and its \<open>text\<close> (here \<open>response_text\<close>).\<close>

record response =
  status_code :: int
  response_text :: string

datatype post_outcome = Responded response | Raised string

type_synonym net = \<open>nat \<Rightarrow> string \<Rightarrow> string \<Rightarrow> post_outcome\<close>

definition requests_post :: \<open>net \<Rightarrow> string \<Rightarrow> string \<Rightarrow> response action\<close> where
  \<open>requests_post net url body w =
     (let w1 = w\<lparr>posted := posted w @ [(url, body)]\<rparr>
      in case net (length (posted w)) url body of
           Responded r \<Rightarrow> (Inr r, w1)
         | Raised d \<Rightarrow> (Inl (RequestError d), w1))\<close>

text \<open>\<open>try: body except Exception as e: handler\<close>.\<close>

definition try_except :: \<open>'a action \<Rightarrow> (error \<Rightarrow> 'a action) \<Rightarrow> 'a action\<close> where
  \<open>try_except body handler w =
     (case body w of
        (Inl e, w1) \<Rightarrow> handler e w1
      | (Inr x, w1) \<Rightarrow> (Inr x, w1))\<close>

definition send_bg :: \<open>net \<Rightarrow> string \<Rightarrow> unit action\<close> where
  \<open>send_bg net string =
     try_except
       (\<lambda>w. case requests_post net ''http://localhost/cgi-bin/aid/call'' string w of
               (Inl e, w1) \<Rightarrow> (Inl e, w1)
             | (Inr response, w1) \<Rightarrow>
                 (case percent ''%s: %s'' [str_int (status_code response), rstrip (response_text response)] of
                    Inl e \<Rightarrow> (Inl e, w1)
                  | Inr line \<Rightarrow> print line w1))
       (\<lambda>e w. print (''Unexpected error: '' @ str_error e) w)\<close>

text \<open>
  The single worker of the executor runs the submitted tasks one after the other, in
  submission order, and keeps the outcome of each task in its future: an outcome never
  stops the worker.
\<close>

fun worker :: \<open>net \<Rightarrow> string list \<Rightarrow> world \<Rightarrow> world\<close> where
  \<open>worker net [] w = w\<close>
| \<open>worker net (s # q) w = worker net q (snd (send_bg net s w))\<close>

section \<open>Event listeners of the AMI client\<close>

text \<open>
  The patterns of the two \<open>re.compile\<close> calls, in the fragment of regular expressions
  they use: a sequence of pieces, each one atom (a literal character, or \<open>.\<close>, which is any
  character but a line feed) or an atom repeated at least \<open>n\<close> times (\<open>a{n,}\<close>, and \<open>a*\<close>
  for \<open>n = 0\<close>), behind an optional \<open>^\<close>, which holds at the start of the string only.
\<close>

datatype atom = Chr char | Dot

datatype piece = One atom | AtLeast nat atom

record regex =
  anchored :: bool
  pieces :: \<open>piece list\<close>

fun atom_matches :: \<open>atom \<Rightarrow> char \<Rightarrow> bool\<close> where
  \<open>atom_matches (Chr a) c = (c = a)\<close>
| \<open>atom_matches Dot c = (c \<noteq> CHR 0x0A)\<close>

text \<open>Whether the pieces match some prefix of the string.\<close>

fun match_here :: \<open>piece list \<Rightarrow> string \<Rightarrow> bool\<close> where
  \<open>match_here [] s = True\<close>
| \<open>match_here (One a # ps) s =
     (case s of [] \<Rightarrow> False | c # cs \<Rightarrow> atom_matches a c \<and> match_here ps cs)\<close>
| \<open>match_here (AtLeast n a # ps) s =
     list_ex (\<lambda>k. list_all (atom_matches a) (take k s) \<and> match_here ps (drop k s))
       [n ..< Suc (length s)]\<close>

text \<open>\<open>pattern.search(s) is not None\<close>: a match starting at some position of the string.\<close>

definition re_search :: \<open>regex \<Rightarrow> string \<Rightarrow> bool\<close> where
  \<open>re_search r s =
     (if anchored r then match_here (pieces r) s
      else list_ex (\<lambda>i. match_here (pieces r) (drop i s)) [0 ..< Suc (length s)])\<close>

text \<open>\<open>re.compile('^SIP/Sipgate_-2615510.*')\<close>\<close>

definition re_channel :: regex where
  \<open>re_channel = \<lparr>anchored = True, pieces = map (\<lambda>c. One (Chr c)) ''SIP/Sipgate_-2615510'' @ [AtLeast 0 Dot]\<rparr>\<close>

text \<open>\<open>re.compile('.{5,}')\<close>\<close>

definition re_exten :: regex where
  \<open>re_exten = \<lparr>anchored = False, pieces = [AtLeast 5 Dot]\<rparr>\<close>

text \<open>
  Modelled from the spec: the \<open>EventListener\<close> class and the loop that calls the
  listeners belong to the AMI client library, which is not part of the repository. As in
  section 4.1 of the specification, a listener matches an event when the event's name
  equals the listener's \<open>white_list\<close> entry and every field constraint holds: the field is
  present and equals the literal, or is found by the compiled pattern; an absent field is
  no match. As in section 4.2, the listeners are tried in registration order.
\<close>

datatype rule = Str string | Re regex

record 's event_listener =
  on_event :: \<open>'s \<Rightarrow> event \<Rightarrow> unit action\<close>
  white_list :: string
  assert_attrs :: \<open>(string \<times> rule) list\<close>

fun check_attribute :: \<open>rule \<Rightarrow> string \<Rightarrow> bool\<close> where
  \<open>check_attribute (Str s) v = (s = v)\<close>
| \<open>check_attribute (Re r) v = re_search r v\<close>

definition check_event_attrs :: \<open>'s event_listener \<Rightarrow> event \<Rightarrow> bool\<close> where
  \<open>check_event_attrs l ev =
     list_all (\<lambda>(k, r). case keys ev k of None \<Rightarrow> False | Some v \<Rightarrow> check_attribute r v)
       (assert_attrs l)\<close>

definition listener_matches :: \<open>'s event_listener \<Rightarrow> event \<Rightarrow> bool\<close> where
  \<open>listener_matches l ev = (name ev = white_list l \<and> check_event_attrs l ev)\<close>

definition listener_call :: \<open>'s event_listener \<Rightarrow> 's \<Rightarrow> event \<Rightarrow> unit action\<close> where
  \<open>listener_call l source ev w =
     (if listener_matches l ev then on_event l source ev w else (Inr (), w))\<close>

text \<open>The five registrations of calls.py, in their order.\<close>

definition incomming_call_listener :: \<open>'s event_listener\<close> where
  \<open>incomming_call_listener =
     \<lparr>on_event = on_incomming_call, white_list = ''Newstate'',
      assert_attrs = [(''ChannelStateDesc'', Str ''Ring''), (''Context'', Str ''from-trunk''),
                      (''Channel'', Re re_channel)]\<rparr>\<close>

definition outgoing_call_listener :: \<open>'s event_listener\<close> where
  \<open>outgoing_call_listener =
     \<lparr>on_event = on_outgoing_call, white_list = ''Newstate'',
      assert_attrs = [(''ChannelStateDesc'', Str ''Ring''), (''Context'', Str ''from-internal''),
                      (''Exten'', Re re_exten)]\<rparr>\<close>

definition hangup_listener :: \<open>'s event_listener\<close> where
  \<open>hangup_listener =
     \<lparr>on_event = on_hangup, white_list = ''Hangup'',
      assert_attrs = [(''Context'', Str ''from-trunk'')]\<rparr>\<close>

definition accept_listener :: \<open>'s event_listener\<close> where
  \<open>accept_listener =
     \<lparr>on_event = on_accept, white_list = ''Newstate'',
      assert_attrs = [(''Context'', Str ''from-trunk''), (''ChannelStateDesc'', Str ''Up'')]\<rparr>\<close>

definition transfer_listener :: \<open>'s event_listener\<close> where
  \<open>transfer_listener =
     \<lparr>on_event = on_transfer, white_list = ''AttendedTransfer'', assert_attrs = []\<rparr>\<close>

definition listeners :: \<open>'s event_listener list\<close> where
  \<open>listeners =
     [incomming_call_listener, outgoing_call_listener, hangup_listener, accept_listener,
      transfer_listener]\<close>

text \<open>
  Modelled from the spec: the loop of the AMI client that hands one inbound event to
  every listener, in registration order (section 4.2). The repository has no code for
  what the loop does when a handler raises; here the exception leaves the loop, as it
  leaves any Python call that is not inside a \<open>try\<close> statement. With the five rules of
  calls.py at most one listener runs per event, so the world after one event is the same
  if the loop went on instead.
\<close>

fun fire_recv_event :: \<open>'s event_listener list \<Rightarrow> 's \<Rightarrow> event \<Rightarrow> unit action\<close> where
  \<open>fire_recv_event [] source ev w = (Inr (), w)\<close>
| \<open>fire_recv_event (l # ls) source ev w =
     (case listener_call l source ev w of
        (Inl e, w1) \<Rightarrow> (Inl e, w1)
      | (Inr _, w1) \<Rightarrow> fire_recv_event ls source ev w1)\<close>

section \<open>JSON objects with string members\<close>

text \<open>
  What the receiver of a payload reads. \<open>json_string_object s\<close> reads \<open>s\<close> as a JSON text
  (RFC 8259) that is one object whose member values are all strings, and gives the
  members in their order, decoded; it is \<open>None\<close> when \<open>s\<close> is no such text. Insignificant
  whitespace is a space, a tab, a line feed or a carriage return. Inside a string a quote
  ends it, a backslash starts an escape, and a control character below U+0020 is not
  allowed. A \<open>\u\<close> escape is read when it names a code point below 256.
\<close>

definition json_ws :: \<open>char \<Rightarrow> bool\<close> where
  \<open>json_ws c = (c = CHR 0x20 \<or> c = CHR 0x09 \<or> c = CHR 0x0A \<or> c = CHR 0x0D)\<close>

definition skip_ws :: \<open>string \<Rightarrow> string\<close> where
  \<open>skip_ws s = dropWhile json_ws s\<close>

definition expect :: \<open>char \<Rightarrow> string \<Rightarrow> string option\<close> where
  \<open>expect ch s = (case s of [] \<Rightarrow> None | c # cs \<Rightarrow> if c = ch then Some cs else None)\<close>

definition hex_digit :: \<open>char \<Rightarrow> nat option\<close> where
  \<open>hex_digit c =
     (let n = (of_char c :: nat)
      in if 48 \<le> n \<and> n \<le> 57 then Some (n - 48)
         else if 65 \<le> n \<and> n \<le> 70 then Some (n - 55)
         else if 97 \<le> n \<and> n \<le> 102 then Some (n - 87)
         else None)\<close>

definition hex4 :: \<open>char \<Rightarrow> char \<Rightarrow> char \<Rightarrow> char \<Rightarrow> char option\<close> where
  \<open>hex4 a b c d =
     (case (hex_digit a, hex_digit b, hex_digit c, hex_digit d) of
        (Some x, Some y, Some z, Some u) \<Rightarrow>
          (if x = 0 \<and> y = 0 then Some (char_of (16 * z + u)) else None)
      | _ \<Rightarrow> None)\<close>

definition json_escape :: \<open>char \<Rightarrow> char option\<close> where
  \<open>json_escape e =
     (if e = CHR 0x22 then Some (CHR 0x22)
      else if e = CHR 0x5C then Some (CHR 0x5C)
      else if e = CHR ''/'' then Some (CHR ''/'')
      else if e = CHR ''b'' then Some (CHR 0x08)
      else if e = CHR ''f'' then Some (CHR 0x0C)
      else if e = CHR ''n'' then Some (CHR 0x0A)
      else if e = CHR ''r'' then Some (CHR 0x0D)
      else if e = CHR ''t'' then Some (CHR 0x09)
      else None)\<close>

text \<open>The characters of a string after its opening quote, and what follows its closing quote.\<close>

fun json_chars :: \<open>string \<Rightarrow> (string \<times> string) option\<close> where
  \<open>json_chars [] = None\<close>
| \<open>json_chars (c # cs) =
     (if c = CHR 0x22 then Some ([], cs)
      else if c = CHR 0x5C then
        (case cs of
           [] \<Rightarrow> None
         | e # es \<Rightarrow>
             if e = CHR ''u'' then
               (case es of
                  h1 # h2 # h3 # h4 # rest \<Rightarrow>
                    (case hex4 h1 h2 h3 h4 of
                       None \<Rightarrow> None
                     | Some d \<Rightarrow>
                         (case json_chars rest of None \<Rightarrow> None | Some (r, t) \<Rightarrow> Some (d # r, t)))
                | _ \<Rightarrow> None)
             else
               (case json_escape e of
                  None \<Rightarrow> None
                | Some d \<Rightarrow>
                    (case json_chars es of None \<Rightarrow> None | Some (r, t) \<Rightarrow> Some (d # r, t))))
      else if (of_char c :: nat) < 32 then None
      else (case json_chars cs of None \<Rightarrow> None | Some (r, t) \<Rightarrow> Some (c # r, t)))\<close>

text \<open>The members of an object from the opening quote of a name up to the closing brace.\<close>

function json_members :: \<open>string \<Rightarrow> ((string \<times> string) list \<times> string) option\<close> where
  \<open>json_members s =
     (case expect (CHR 0x22) s of None \<Rightarrow> None | Some s1 \<Rightarrow>
     (case json_chars s1 of None \<Rightarrow> None | Some (k, s2) \<Rightarrow>
     (case expect (CHR '':'') (skip_ws s2) of None \<Rightarrow> None | Some s3 \<Rightarrow>
     (case expect (CHR 0x22) (skip_ws s3) of None \<Rightarrow> None | Some s4 \<Rightarrow>
     (case json_chars s4 of None \<Rightarrow> None | Some (v, s5) \<Rightarrow>
     (case expect (CHR ''}'') (skip_ws s5) of
        Some s6 \<Rightarrow> Some ([(k, v)], s6)
      | None \<Rightarrow>
          (case expect (CHR '','') (skip_ws s5) of None \<Rightarrow> None | Some s6 \<Rightarrow>
          (case json_members (skip_ws s6) of
             None \<Rightarrow> None
           | Some (kvs, rest) \<Rightarrow> Some ((k, v) # kvs, rest)))))))))\<close>
  by pat_completeness auto
termination
proof (relation \<open>measure length\<close>)
  show \<open>wf (measure length)\<close> by simp
next
  fix s s1 k s2 s3 s4 v s5 s6 :: string and x2a x2b :: \<open>string \<times> string\<close>
  assume a: \<open>expect (CHR 0x22) s = Some s1\<close> \<open>json_chars s1 = Some x2a\<close> \<open>(k, s2) = x2a\<close>
    \<open>expect CHR '':'' (skip_ws s2) = Some s3\<close> \<open>expect (CHR 0x22) (skip_ws s3) = Some s4\<close>
    \<open>json_chars s4 = Some x2b\<close> \<open>(v, s5) = x2b\<close> \<open>expect CHR '','' (skip_ws s5) = Some s6\<close>
  have chars: \<open>json_chars u = Some (r, t) \<Longrightarrow> length t < length u\<close> for u r t
  proof (induction u arbitrary: r t rule: json_chars.induct)
    case 1
    then show ?case by simp
  next
    case (2 c cs)
    then show ?case
      by (fastforce split: if_splits option.splits list.splits prod.splits)
  qed
  have expected: \<open>expect c u = Some t \<Longrightarrow> length t < length u\<close> for c u t
    by (auto simp: expect_def split: list.splits if_splits)
  have ws: \<open>length (skip_ws u) \<le> length u\<close> for u
    by (simp add: skip_ws_def length_dropWhile_le)
  have \<open>length s1 < length s\<close> using a(1) by (rule expected)
  moreover have \<open>length s2 < length s1\<close> using a(2,3) chars by metis
  moreover have \<open>length s3 < length (skip_ws s2)\<close> using a(4) by (rule expected)
  moreover have \<open>length s4 < length (skip_ws s3)\<close> using a(5) by (rule expected)
  moreover have \<open>length s5 < length s4\<close> using a(6,7) chars by metis
  moreover have \<open>length s6 < length (skip_ws s5)\<close> using a(8) by (rule expected)
  ultimately show \<open>(skip_ws s6, s) \<in> measure length\<close>
    using ws[of s2] ws[of s3] ws[of s5] ws[of s6] by simp
qed

declare json_members.simps [simp del]

definition json_string_object :: \<open>string \<Rightarrow> (string \<times> string) list option\<close> where
  \<open>json_string_object s =
     (case expect (CHR ''{'') (skip_ws s) of None \<Rightarrow> None | Some s1 \<Rightarrow>
     (case expect (CHR ''}'') (skip_ws s1) of
        Some s2 \<Rightarrow> (if skip_ws s2 = [] then Some [] else None)
      | None \<Rightarrow>
          (case json_members (skip_ws s1) of
             None \<Rightarrow> None
           | Some (kvs, rest) \<Rightarrow> if skip_ws rest = [] then Some kvs else None)))\<close>

text \<open>
  A string that stands for itself between two quotes of a JSON text: no quote, no
  backslash, no control character below U+0020.
\<close>

definition json_plain :: \<open>string \<Rightarrow> bool\<close> where
  \<open>json_plain v = list_all (\<lambda>c. c \<noteq> CHR 0x22 \<and> c \<noteq> CHR 0x5C \<and> 32 \<le> (of_char c :: nat)) v\<close>

section \<open>The wording of the specification\<close>

text \<open>
  The specification's "first word, lower-cased": the name is split on the first run of
  whitespace, the leading token is taken and its case folded; a name with no whitespace is
  taken whole. Case folding is read as lower-casing, with which it agrees on the letters
  A to Z.
\<close>

definition spec_first_word :: \<open>string \<Rightarrow> string\<close> where
  \<open>spec_first_word s = lower (takeWhile (\<lambda>c. \<not> isspace c) s)\<close>

text \<open>Scenario 1 of the specification: a ringing call from the trunk.\<close>

definition scenario1 :: event where
  \<open>scenario1 =
     \<lparr>name = ''Newstate'',
      keys = map_of
        [(''ChannelStateDesc'', ''Ring''), (''Context'', ''from-trunk''),
         (''Channel'', ''SIP/Sipgate_-2615510-00a1''), (''CallerIDNum'', ''+491701234567''),
         (''Exten'', ''100''), (''Uniqueid'', ''1700000000.12'')]\<rparr>\<close>

text \<open>An event that has the field Context and no other.\<close>

definition context_only_event :: event where
  \<open>context_only_event = \<lparr>name = ''Hangup'', keys = map_of [(''Context'', ''from-trunk'')]\<rparr>\<close>

text \<open>
  Two events that carry every field the handlers read, the first with a connected-line
  name, the second with the placeholder for an unknown one.
\<close>

definition full_event :: event where
  \<open>full_event =
     \<lparr>name = ''Newstate'',
      keys = map_of
        [(''Context'', ''from-trunk''), (''ChannelStateDesc'', ''Up''),
         (''CallerIDNum'', ''+491701234567''), (''Uniqueid'', ''1700000000.12''),
         (''Exten'', ''100''), (''ConnectedLineName'', ''Jane Doe''),
         (''CallerIDName'', ''Alice Example''), (''TransfereeUniqueid'', ''1700000000.15''),
         (''TransferTargetCallerIDName'', ''Bob Smith Extra'')]\<rparr>\<close>




text \<open>
  An accepted call from the trunk with a given connected-line name, and an attended
  transfer whose target name has a tab between its two words.
\<close>

definition accept_event :: \<open>string \<Rightarrow> event\<close> where
  \<open>accept_event cln =
     \<lparr>name = ''Newstate'',
      keys = map_of
        [(''Context'', ''from-trunk''), (''ChannelStateDesc'', ''Up''),
         (''CallerIDNum'', ''+491701234567''), (''Uniqueid'', ''1700000000.12''),
         (''Exten'', ''100''), (''ConnectedLineName'', cln)]\<rparr>\<close>

definition transfer_tab_event :: event where
  \<open>transfer_tab_event =
     \<lparr>name = ''AttendedTransfer'',
      keys = map_of
        [(''TransfereeUniqueid'', ''1700000000.15''),
         (''TransferTargetCallerIDName'', ''Bob'' @ [CHR 0x09] @ ''Smith'')]\<rparr>\<close>

text \<open>
  An accepted call from the trunk with the placeholder as connected-line name and a
  Uniqueid that holds quotes: it closes the callid string and opens a member of its own.
\<close>

definition accept_injected_event :: event where
  \<open>accept_injected_event =
     \<lparr>name = ''Newstate'',
      keys = map_of
        [(''Context'', ''from-trunk''), (''ChannelStateDesc'', ''Up''),
         (''CallerIDNum'', ''x''), (''Uniqueid'', ''1", "user": "evil''),
         (''Exten'', ''100''), (''ConnectedLineName'', ''<unknown>'')]\<rparr>\<close>

section \<open>What one handler call may do\<close>

text \<open>
  An action sends at most one payload from a world when it either raises and leaves the
  world as it was, or returns after printing and submitting one and the same string.
\<close>

definition sends_at_most_one :: \<open>unit action \<Rightarrow> world \<Rightarrow> bool\<close> where
  \<open>sends_at_most_one f w =
     ((\<exists>e. f w = (Inl e, w)) \<or>
      (\<exists>p. f w = (Inr (), w\<lparr>stdout := stdout w @ [p], submitted := submitted w @ [p]\<rparr>)))\<close>

section \<open>Facts about the Python values\<close>

lemma takeWhile_no_sep: \<open>sep \<notin> set s \<Longrightarrow> takeWhile (\<lambda>c. c \<noteq> sep) s = s\<close>
  by (induction s) auto

lemma split_first_lower_eq:
  \<open>split_first_lower s = Inr (lower (takeWhile (\<lambda>c. c \<noteq> CHR '' '') s))\<close>
  by (simp add: split_first_lower_def index0_def split1_def takeWhile_no_sep)

lemma of_char_lower_char:
  \<open>(of_char (lower_char c) :: nat) =
      (if (65 \<le> (of_char c :: nat) \<and> (of_char c :: nat) \<le> 90)
          \<or> (192 \<le> (of_char c :: nat) \<and> (of_char c :: nat) \<le> 214)
          \<or> (216 \<le> (of_char c :: nat) \<and> (of_char c :: nat) \<le> 222)
       then of_char c + 32 else of_char c)\<close>
  by (simp add: lower_char_def Let_def)

lemma char_34: \<open>(c = CHR 0x22) = ((of_char c :: nat) = 34)\<close>
proof -
  have \<open>(c = CHR 0x22) = ((of_char c :: nat) = of_char (CHR 0x22))\<close>
    by (simp only: of_char_eq_iff)
  then show ?thesis by simp
qed

lemma char_92: \<open>(c = CHR 0x5C) = ((of_char c :: nat) = 92)\<close>
proof -
  have \<open>(c = CHR 0x5C) = ((of_char c :: nat) = of_char (CHR 0x5C))\<close>
    by (simp only: of_char_eq_iff)
  then show ?thesis by simp
qed

lemma send_eq:
  \<open>send s w = (Inr (), w\<lparr>stdout := stdout w @ [s], submitted := submitted w @ [s]\<rparr>)\<close>
  by (simp add: send_def print_def executor_submit_def)

section \<open>Facts about the handlers\<close>

lemma on_event_simps [simp]:
  \<open>on_event incomming_call_listener = on_incomming_call\<close>
  \<open>on_event outgoing_call_listener = on_outgoing_call\<close>
  \<open>on_event hangup_listener = on_hangup\<close>
  \<open>on_event accept_listener = on_accept\<close>
  \<open>on_event transfer_listener = on_transfer\<close>
  by (simp_all add: incomming_call_listener_def outgoing_call_listener_def hangup_listener_def
      accept_listener_def transfer_listener_def)

lemma on_incomming_call_ok:
  assumes \<open>keys ev ''CallerIDNum'' = Some a\<close> \<open>keys ev ''Uniqueid'' = Some b\<close> \<open>keys ev ''Exten'' = Some c\<close>
  shows \<open>on_incomming_call src ev w =
    send (''{"event": "Incoming Call", "remote": "'' @ a @ ''", "callid": "'' @ b @ ''", "dialed": "'' @ c @ ''"}'') w\<close>
  using assms by (simp add: on_incomming_call_def getitem_def)

lemma on_hangup_ok:
  assumes \<open>keys ev ''Uniqueid'' = Some a\<close> \<open>keys ev ''CallerIDNum'' = Some b\<close>
  shows \<open>on_hangup src ev w =
    send (''{"event": "Hangup", "callid": "'' @ a @ ''", "remote": "'' @ b @ ''"}'') w\<close>
  using assms by (simp add: on_hangup_def getitem_def)

lemma on_accept_unknown:
  assumes \<open>keys ev ''ConnectedLineName'' = Some ''<unknown>''\<close>
    \<open>keys ev ''Uniqueid'' = Some a\<close> \<open>keys ev ''CallerIDNum'' = Some b\<close> \<open>keys ev ''Exten'' = Some c\<close>
  shows \<open>on_accept src ev w =
    send (''{"event": "Accepted Call", "callid": "'' @ a @ ''", "remote": "'' @ b @ ''", "dialed": "'' @ c @ ''"}'') w\<close>
  using assms by (simp add: on_accept_def getitem_def)

lemma on_accept_named:
  assumes \<open>keys ev ''ConnectedLineName'' = Some n\<close> \<open>n \<noteq> ''<unknown>''\<close>
    \<open>keys ev ''Uniqueid'' = Some a\<close> \<open>keys ev ''CallerIDNum'' = Some b\<close> \<open>keys ev ''Exten'' = Some c\<close>
  shows \<open>on_accept src ev w =
    send (''{"event": "Accepted Call", "callid": "'' @ a @ ''", "remote": "'' @ b @ ''", "dialed": "'' @ c
       @ ''", "user": "'' @ lower (takeWhile (\<lambda>c. c \<noteq> CHR '' '') n) @ ''"}'') w\<close>
  using assms by (simp add: on_accept_def getitem_def split_first_lower_eq)

lemma on_outgoing_call_ok:
  assumes \<open>keys ev ''Uniqueid'' = Some a\<close> \<open>keys ev ''Exten'' = Some b\<close> \<open>keys ev ''CallerIDName'' = Some n\<close>
  shows \<open>on_outgoing_call src ev w =
    send (''{"event": "Outgoing Call", "callid": "'' @ a @ ''", "remote": "'' @ b
       @ ''", "user": "'' @ lower (takeWhile (\<lambda>c. c \<noteq> CHR '' '') n) @ ''"}'') w\<close>
  using assms by (simp add: on_outgoing_call_def getitem_def split_first_lower_eq)

lemma on_transfer_ok:
  assumes \<open>keys ev ''TransfereeUniqueid'' = Some a\<close> \<open>keys ev ''TransferTargetCallerIDName'' = Some n\<close>
  shows \<open>on_transfer src ev w =
    send (''{"event": "Transfer Call", "callid": "'' @ a
       @ ''", "newuser": "'' @ lower (takeWhile (\<lambda>c. c \<noteq> CHR '' '') n) @ ''"}'') w\<close>
  using assms by (simp add: on_transfer_def getitem_def split_first_lower_eq)

text \<open>
  A handler that reads an absent field raises \<open>KeyError\<close> for the first absent field it
  reads, and leaves the world as it was.
\<close>

lemma on_incomming_call_raises:
  \<open>keys ev ''CallerIDNum'' = None \<Longrightarrow>
     on_incomming_call src ev w = (Inl (KeyError ''CallerIDNum''), w)\<close>
  \<open>keys ev ''CallerIDNum'' = Some a \<Longrightarrow> keys ev ''Uniqueid'' = None \<Longrightarrow>
     on_incomming_call src ev w = (Inl (KeyError ''Uniqueid''), w)\<close>
  \<open>keys ev ''CallerIDNum'' = Some a \<Longrightarrow> keys ev ''Uniqueid'' = Some b \<Longrightarrow> keys ev ''Exten'' = None \<Longrightarrow>
     on_incomming_call src ev w = (Inl (KeyError ''Exten''), w)\<close>
  by (simp_all add: on_incomming_call_def getitem_def)

lemma on_hangup_raises:
  \<open>keys ev ''Uniqueid'' = None \<Longrightarrow> on_hangup src ev w = (Inl (KeyError ''Uniqueid''), w)\<close>
  \<open>keys ev ''Uniqueid'' = Some a \<Longrightarrow> keys ev ''CallerIDNum'' = None \<Longrightarrow>
     on_hangup src ev w = (Inl (KeyError ''CallerIDNum''), w)\<close>
  by (simp_all add: on_hangup_def getitem_def)

lemma on_accept_raises:
  \<open>keys ev ''ConnectedLineName'' = None \<Longrightarrow>
     on_accept src ev w = (Inl (KeyError ''ConnectedLineName''), w)\<close>
  \<open>keys ev ''ConnectedLineName'' = Some n \<Longrightarrow> keys ev ''Uniqueid'' = None \<Longrightarrow>
     on_accept src ev w = (Inl (KeyError ''Uniqueid''), w)\<close>
  \<open>keys ev ''ConnectedLineName'' = Some n \<Longrightarrow> keys ev ''Uniqueid'' = Some a \<Longrightarrow>
     keys ev ''CallerIDNum'' = None \<Longrightarrow>
     on_accept src ev w = (Inl (KeyError ''CallerIDNum''), w)\<close>
  \<open>keys ev ''ConnectedLineName'' = Some n \<Longrightarrow> keys ev ''Uniqueid'' = Some a \<Longrightarrow>
     keys ev ''CallerIDNum'' = Some b \<Longrightarrow> keys ev ''Exten'' = None \<Longrightarrow>
     on_accept src ev w = (Inl (KeyError ''Exten''), w)\<close>
  by (simp_all add: on_accept_def getitem_def)

lemma on_outgoing_call_raises:
  \<open>keys ev ''Uniqueid'' = None \<Longrightarrow> on_outgoing_call src ev w = (Inl (KeyError ''Uniqueid''), w)\<close>
  \<open>keys ev ''Uniqueid'' = Some a \<Longrightarrow> keys ev ''Exten'' = None \<Longrightarrow>
     on_outgoing_call src ev w = (Inl (KeyError ''Exten''), w)\<close>
  \<open>keys ev ''Uniqueid'' = Some a \<Longrightarrow> keys ev ''Exten'' = Some b \<Longrightarrow> keys ev ''CallerIDName'' = None \<Longrightarrow>
     on_outgoing_call src ev w = (Inl (KeyError ''CallerIDName''), w)\<close>
  by (simp_all add: on_outgoing_call_def getitem_def)

lemma on_transfer_raises:
  \<open>keys ev ''TransfereeUniqueid'' = None \<Longrightarrow>
     on_transfer src ev w = (Inl (KeyError ''TransfereeUniqueid''), w)\<close>
  \<open>keys ev ''TransfereeUniqueid'' = Some a \<Longrightarrow> keys ev ''TransferTargetCallerIDName'' = None \<Longrightarrow>
     on_transfer src ev w = (Inl (KeyError ''TransferTargetCallerIDName''), w)\<close>
  by (simp_all add: on_transfer_def getitem_def)

lemma sends_raise: \<open>f w = (Inl e, w) \<Longrightarrow> sends_at_most_one f w\<close>
  unfolding sends_at_most_one_def by blast

lemma sends_send: \<open>f w = send p w \<Longrightarrow> sends_at_most_one f w\<close>
  unfolding sends_at_most_one_def send_eq by blast

lemma on_incomming_call_sends: \<open>sends_at_most_one (on_incomming_call src ev) w\<close>
proof (cases \<open>keys ev ''CallerIDNum''\<close>)
  case None
  then show ?thesis by (rule sends_raise [OF on_incomming_call_raises(1)])
next
  case a: (Some a)
  show ?thesis
  proof (cases \<open>keys ev ''Uniqueid''\<close>)
    case None
    with a show ?thesis by (rule sends_raise [OF on_incomming_call_raises(2)])
  next
    case b: (Some b)
    show ?thesis
    proof (cases \<open>keys ev ''Exten''\<close>)
      case None
      with a b show ?thesis by (rule sends_raise [OF on_incomming_call_raises(3)])
    next
      case (Some c)
      with a b show ?thesis by (rule sends_send [OF on_incomming_call_ok])
    qed
  qed
qed

lemma on_hangup_sends: \<open>sends_at_most_one (on_hangup src ev) w\<close>
proof (cases \<open>keys ev ''Uniqueid''\<close>)
  case None
  then show ?thesis by (rule sends_raise [OF on_hangup_raises(1)])
next
  case a: (Some a)
  show ?thesis
  proof (cases \<open>keys ev ''CallerIDNum''\<close>)
    case None
    with a show ?thesis by (rule sends_raise [OF on_hangup_raises(2)])
  next
    case (Some b)
    with a show ?thesis by (rule sends_send [OF on_hangup_ok])
  qed
qed

lemma on_accept_sends: \<open>sends_at_most_one (on_accept src ev) w\<close>
proof (cases \<open>keys ev ''ConnectedLineName''\<close>)
  case None
  then show ?thesis by (rule sends_raise [OF on_accept_raises(1)])
next
  case n: (Some n)
  show ?thesis
  proof (cases \<open>keys ev ''Uniqueid''\<close>)
    case None
    with n show ?thesis by (rule sends_raise [OF on_accept_raises(2)])
  next
    case a: (Some a)
    show ?thesis
    proof (cases \<open>keys ev ''CallerIDNum''\<close>)
      case None
      with n a show ?thesis by (rule sends_raise [OF on_accept_raises(3)])
    next
      case b: (Some b)
      show ?thesis
      proof (cases \<open>keys ev ''Exten''\<close>)
        case None
        with n a b show ?thesis by (rule sends_raise [OF on_accept_raises(4)])
      next
        case c: (Some c)
        show ?thesis
        proof (cases \<open>n = ''<unknown>''\<close>)
          case True
          with n have \<open>keys ev ''ConnectedLineName'' = Some ''<unknown>''\<close> by simp
          then show ?thesis using a b c by (rule sends_send [OF on_accept_unknown])
        next
          case False
          with n show ?thesis using a b c by (rule sends_send [OF on_accept_named])
        qed
      qed
    qed
  qed
qed

lemma on_outgoing_call_sends: \<open>sends_at_most_one (on_outgoing_call src ev) w\<close>
proof (cases \<open>keys ev ''Uniqueid''\<close>)
  case None
  then show ?thesis by (rule sends_raise [OF on_outgoing_call_raises(1)])
next
  case a: (Some a)
  show ?thesis
  proof (cases \<open>keys ev ''Exten''\<close>)
    case None
    with a show ?thesis by (rule sends_raise [OF on_outgoing_call_raises(2)])
  next
    case b: (Some b)
    show ?thesis
    proof (cases \<open>keys ev ''CallerIDName''\<close>)
      case None
      with a b show ?thesis by (rule sends_raise [OF on_outgoing_call_raises(3)])
    next
      case (Some n)
      with a b show ?thesis by (rule sends_send [OF on_outgoing_call_ok])
    qed
  qed
qed

lemma on_transfer_sends: \<open>sends_at_most_one (on_transfer src ev) w\<close>
proof (cases \<open>keys ev ''TransfereeUniqueid''\<close>)
  case None
  then show ?thesis by (rule sends_raise [OF on_transfer_raises(1)])
next
  case a: (Some a)
  show ?thesis
  proof (cases \<open>keys ev ''TransferTargetCallerIDName''\<close>)
    case None
    with a show ?thesis by (rule sends_raise [OF on_transfer_raises(2)])
  next
    case (Some n)
    with a show ?thesis by (rule sends_send [OF on_transfer_ok])
  qed
qed

lemmas handlers_send_at_most_one =
  on_incomming_call_sends on_outgoing_call_sends on_hangup_sends on_accept_sends on_transfer_sends

section \<open>Facts about the patterns and the listeners\<close>

lemma match_here_at_least:
  \<open>match_here (AtLeast n a # ps) s =
     (\<exists>k. n \<le> k \<and> k \<le> length s \<and> list_all (atom_matches a) (take k s) \<and> match_here ps (drop k s))\<close>
proof -
  have \<open>match_here (AtLeast n a # ps) s =
      (\<exists>k \<in> set [n ..< Suc (length s)]. list_all (atom_matches a) (take k s) \<and> match_here ps (drop k s))\<close>
    by (simp only: match_here.simps list_ex_iff)
  also have \<open>\<dots> = (\<exists>k. n \<le> k \<and> k \<le> length s \<and> list_all (atom_matches a) (take k s) \<and> match_here ps (drop k s))\<close>
    by (simp only: set_upt atLeastLessThan_iff less_Suc_eq_le Bex_def conj_assoc)
  finally show ?thesis .
qed

lemma dot5_here:
  \<open>match_here [AtLeast 5 Dot] s = (5 \<le> length s \<and> CHR 0x0A \<notin> set (take 5 s))\<close>
proof
  assume \<open>match_here [AtLeast 5 Dot] s\<close>
  then obtain k where k: \<open>5 \<le> k\<close> \<open>k \<le> length s\<close> \<open>list_all (atom_matches Dot) (take k s)\<close>
    unfolding match_here_at_least by blast
  have \<open>set (take 5 s) \<subseteq> set (take k s)\<close>
    using k(1) by (rule set_take_subset_set_take)
  moreover have \<open>CHR 0x0A \<notin> set (take k s)\<close>
    using k(3) by (auto simp: list_all_iff)
  ultimately show \<open>5 \<le> length s \<and> CHR 0x0A \<notin> set (take 5 s)\<close>
    using k(1,2) by auto
next
  assume a: \<open>5 \<le> length s \<and> CHR 0x0A \<notin> set (take 5 s)\<close>
  then have \<open>list_all (atom_matches Dot) (take 5 s)\<close>
    by (auto simp: list_all_iff)
  with a have \<open>(5::nat) \<le> 5 \<and> 5 \<le> length s \<and> list_all (atom_matches Dot) (take 5 s) \<and> match_here [] (drop 5 s)\<close>
    by simp
  then show \<open>match_here [AtLeast 5 Dot] s\<close>
    unfolding match_here_at_least by (rule exI)
qed

lemma search_exten:
  \<open>re_search re_exten x = (\<exists>i. i + 5 \<le> length x \<and> CHR 0x0A \<notin> set (take 5 (drop i x)))\<close>
proof -
  have \<open>re_search re_exten x = (\<exists>i \<in> set [0 ..< Suc (length x)]. match_here [AtLeast 5 Dot] (drop i x))\<close>
    by (simp only: re_search_def re_exten_def list_ex_iff regex.simps if_False)
  also have \<open>\<dots> = (\<exists>i. i \<le> length x \<and> 5 \<le> length (drop i x) \<and> CHR 0x0A \<notin> set (take 5 (drop i x)))\<close>
    by (simp only: dot5_here set_upt atLeastLessThan_iff less_Suc_eq_le Bex_def le0 simp_thms)
  also have \<open>\<dots> = (\<exists>i. i + 5 \<le> length x \<and> CHR 0x0A \<notin> set (take 5 (drop i x)))\<close>
  proof -
    have \<open>(i \<le> length x \<and> 5 \<le> length (drop i x)) = (i + 5 \<le> length x)\<close> for i
      by (simp only: length_drop) arith
    then show ?thesis by (simp only: conj_assoc [symmetric])
  qed
  finally show ?thesis .
qed

lemma search_exten_no_lf:
  assumes \<open>CHR 0x0A \<notin> set x\<close>
  shows \<open>re_search re_exten x = (5 \<le> length x)\<close>
proof -
  have no: \<open>CHR 0x0A \<notin> set (take 5 (drop i x))\<close> for i
    using assms by (meson in_set_dropD in_set_takeD)
  have \<open>re_search re_exten x = (\<exists>i. i + 5 \<le> length x)\<close>
    by (simp only: search_exten no simp_thms)
  also have \<open>\<dots> = (5 \<le> length x)\<close>
  proof
    assume \<open>\<exists>i. i + 5 \<le> length x\<close>
    then show \<open>5 \<le> length x\<close> by arith
  next
    assume \<open>5 \<le> length x\<close>
    then have \<open>0 + 5 \<le> length x\<close> by simp
    then show \<open>\<exists>i. i + 5 \<le> length x\<close> by (rule exI)
  qed
  finally show ?thesis .
qed

lemma exten_lf: \<open>\<not> re_search re_exten [CHR ''1'', CHR ''2'', CHR 0x0A, CHR ''4'', CHR ''5'']\<close>
proof
  assume \<open>re_search re_exten [CHR ''1'', CHR ''2'', CHR 0x0A, CHR ''4'', CHR ''5'']\<close>
  then obtain i where i: \<open>i + 5 \<le> length [CHR ''1'', CHR ''2'', CHR 0x0A, CHR ''4'', CHR ''5'']\<close>
    \<open>CHR 0x0A \<notin> set (take 5 (drop i [CHR ''1'', CHR ''2'', CHR 0x0A, CHR ''4'', CHR ''5'']))\<close>
    unfolding search_exten by blast
  from i(1) have \<open>i = 0\<close> by simp
  with i(2) show False by simp
qed

lemma exten_1234: \<open>\<not> re_search re_exten ''1234''\<close>
  by (subst search_exten_no_lf) simp_all

lemma exten_12345: \<open>re_search re_exten ''12345''\<close>
  by (subst search_exten_no_lf) simp_all

lemma matches_incomming:
  \<open>listener_matches incomming_call_listener ev =
     (name ev = ''Newstate'' \<and> keys ev ''ChannelStateDesc'' = Some ''Ring''
      \<and> keys ev ''Context'' = Some ''from-trunk''
      \<and> (case keys ev ''Channel'' of None \<Rightarrow> False | Some v \<Rightarrow> re_search re_channel v))\<close>
  by (auto simp: listener_matches_def check_event_attrs_def incomming_call_listener_def
      split: option.splits)

lemma matches_outgoing:
  \<open>listener_matches outgoing_call_listener ev =
     (name ev = ''Newstate'' \<and> keys ev ''ChannelStateDesc'' = Some ''Ring''
      \<and> keys ev ''Context'' = Some ''from-internal''
      \<and> (case keys ev ''Exten'' of None \<Rightarrow> False | Some v \<Rightarrow> re_search re_exten v))\<close>
  by (auto simp: listener_matches_def check_event_attrs_def outgoing_call_listener_def
      split: option.splits)

lemma matches_hangup:
  \<open>listener_matches hangup_listener ev =
     (name ev = ''Hangup'' \<and> keys ev ''Context'' = Some ''from-trunk'')\<close>
  by (auto simp: listener_matches_def check_event_attrs_def hangup_listener_def
      split: option.splits)

lemma matches_accept:
  \<open>listener_matches accept_listener ev =
     (name ev = ''Newstate'' \<and> keys ev ''Context'' = Some ''from-trunk''
      \<and> keys ev ''ChannelStateDesc'' = Some ''Up'')\<close>
  by (auto simp: listener_matches_def check_event_attrs_def accept_listener_def
      split: option.splits)

lemma matches_transfer:
  \<open>listener_matches transfer_listener ev = (name ev = ''AttendedTransfer'')\<close>
  by (auto simp: listener_matches_def check_event_attrs_def transfer_listener_def)

lemmas matches_simps =
  matches_incomming matches_outgoing matches_hangup matches_accept matches_transfer

lemma filter_le_1:
  \<open>length (filter (\<lambda>l. listener_matches l ev) listeners) \<le> 1\<close>
  by (auto simp: listeners_def matches_simps)

lemma fire_no_match:
  \<open>list_all (\<lambda>l. \<not> listener_matches l ev) ls \<Longrightarrow> fire_recv_event ls src ev w = (Inr (), w)\<close>
  by (induction ls) (simp_all add: listener_call_def)

lemma fire_one_match:
  assumes \<open>length (filter (\<lambda>l. listener_matches l ev) ls) \<le> 1\<close>
    and \<open>list_all (\<lambda>l. sends_at_most_one (on_event l src ev) w) ls\<close>
  shows \<open>length (submitted (snd (fire_recv_event ls src ev w))) \<le> Suc (length (submitted w))\<close>
  using assms
proof (induction ls)
  case Nil
  then show ?case by simp
next
  case (Cons l ls)
  show ?case
  proof (cases \<open>listener_matches l ev\<close>)
    case True
    with Cons.prems(1) have \<open>filter (\<lambda>l. listener_matches l ev) ls = []\<close> by simp
    then have none: \<open>list_all (\<lambda>l. \<not> listener_matches l ev) ls\<close>
      by (simp add: filter_empty_conv list_all_iff)
    from Cons.prems(2) have \<open>sends_at_most_one (on_event l src ev) w\<close> by simp
    then show ?thesis
      using True fire_no_match [OF none]
      by (auto simp: sends_at_most_one_def listener_call_def)
  next
    case False
    with Cons show ?thesis by (simp add: listener_call_def)
  qed
qed

lemma channel_ok: \<open>re_search re_channel ''SIP/Sipgate_-2615510-00a1''\<close>
  by (simp add: re_search_def re_channel_def)

lemma s1_match:
  \<open>listener_matches incomming_call_listener scenario1\<close>
  \<open>\<not> listener_matches outgoing_call_listener scenario1\<close>
  \<open>\<not> listener_matches hangup_listener scenario1\<close>
  \<open>\<not> listener_matches accept_listener scenario1\<close>
  \<open>\<not> listener_matches transfer_listener scenario1\<close>
  by (simp_all add: listener_matches_def check_event_attrs_def scenario1_def
      incomming_call_listener_def outgoing_call_listener_def hangup_listener_def
      accept_listener_def transfer_listener_def channel_ok)

lemma s1_filter:
  \<open>filter (\<lambda>l. listener_matches l scenario1) listeners = [incomming_call_listener]\<close>
  by (simp add: listeners_def s1_match)

lemma s1_handler:
  \<open>on_incomming_call source scenario1 world0 =
     (Inr (),
      \<lparr>stdout = [''{"event": "Incoming Call", "remote": "+491701234567", "callid": "1700000000.12", "dialed": "100"}''],
       submitted = [''{"event": "Incoming Call", "remote": "+491701234567", "callid": "1700000000.12", "dialed": "100"}''],
       posted = []\<rparr>)\<close>
  by (simp add: on_incomming_call_def getitem_def scenario1_def send_eq world0_def)

lemma s1_fire:
  \<open>fire_recv_event listeners source scenario1 world0 =
     (Inr (),
      \<lparr>stdout = [''{"event": "Incoming Call", "remote": "+491701234567", "callid": "1700000000.12", "dialed": "100"}''],
       submitted = [''{"event": "Incoming Call", "remote": "+491701234567", "callid": "1700000000.12", "dialed": "100"}''],
       posted = []\<rparr>)\<close>
  by (simp add: listeners_def listener_call_def s1_match s1_handler)

lemma s1_json:
  \<open>json_string_object ''{"event": "Incoming Call", "remote": "+491701234567", "callid": "1700000000.12", "dialed": "100"}''
   = Some [(''event'', ''Incoming Call''), (''remote'', ''+491701234567''), (''callid'', ''1700000000.12''), (''dialed'', ''100'')]\<close>
  apply (simp add: json_string_object_def expect_def skip_ws_def json_ws_def)
  apply (subst json_members.simps, simp add: expect_def skip_ws_def json_ws_def)+
  done

section \<open>Delivery never raises and is attempted once\<close>

lemma send_bg_eq:
  \<open>send_bg net s w =
     (Inr (),
      w\<lparr>posted := posted w @ [(''http://localhost/cgi-bin/aid/call'', s)],
        stdout := stdout w @
          [case net (length (posted w)) ''http://localhost/cgi-bin/aid/call'' s of
             Responded r \<Rightarrow> str_int (status_code r) @ '': '' @ rstrip (response_text r)
           | Raised d \<Rightarrow> ''Unexpected error: '' @ d]\<rparr>)\<close>
  by (cases \<open>net (length (posted w)) ''http://localhost/cgi-bin/aid/call'' s\<close>)
     (simp_all add: send_bg_def try_except_def requests_post_def print_def Let_def)

lemma worker_posted:
  \<open>posted (worker net q w) = posted w @ map (\<lambda>s. (''http://localhost/cgi-bin/aid/call'', s)) q\<close>
  by (induction q arbitrary: w) (simp_all add: send_bg_eq)

lemma str_int_503: \<open>str_int 503 = ''503''\<close>
  by code_simp

text \<open>
  Claim C8. A call of \<open>send_bg\<close> never raises: whatever the POST does, the result is a
  normal return. It makes exactly one POST attempt, to the fixed URL with the payload as
  body, and prints one line: the status code and the right-stripped text of the response,
  or \<open>Unexpected error:\<close> with the description of the exception. Nothing is submitted
  again, so nothing is retried. The worker makes one attempt for every queued payload, in
  order, whatever the outcomes of the attempts before it.
\<close>

theorem send_bg_absorbs_failure:
  \<open>fst (send_bg net s w) = Inr ()
   \<and> posted (snd (send_bg net s w)) = posted w @ [(''http://localhost/cgi-bin/aid/call'', s)]
   \<and> stdout (snd (send_bg net s w)) = stdout w @
        [case net (length (posted w)) ''http://localhost/cgi-bin/aid/call'' s of
           Responded r \<Rightarrow> str_int (status_code r) @ '': '' @ rstrip (response_text r)
         | Raised d \<Rightarrow> ''Unexpected error: '' @ d]
   \<and> submitted (snd (send_bg net s w)) = submitted w
   \<and> posted (worker net q w) = posted w @ map (\<lambda>p. (''http://localhost/cgi-bin/aid/call'', p)) q\<close>
  by (simp add: send_bg_eq worker_posted)

text \<open>
  A first delivery that fails with an exception, followed by a second that gets a 503
  response: both payloads are posted once, and each outcome is one printed line.
\<close>

theorem send_bg_absorbs_failure_witness:
  \<open>worker (\<lambda>n url body. if n = 0 then Raised ''Connection refused''
                         else Responded \<lparr>status_code = 503, response_text = ''Service Unavailable'' @ [CHR 0x0A]\<rparr>)
      [''first'', ''second''] world0
    = \<lparr>stdout = [''Unexpected error: Connection refused'', ''503: Service Unavailable''],
       submitted = [],
       posted = [(''http://localhost/cgi-bin/aid/call'', ''first''),
                 (''http://localhost/cgi-bin/aid/call'', ''second'')]\<rparr>\<close>
  using send_bg_absorbs_failure [of \<open>\<lambda>n url body. if n = 0 then Raised ''Connection refused''
                         else Responded \<lparr>status_code = 503, response_text = ''Service Unavailable'' @ [CHR 0x0A]\<rparr>\<close> \<open>''first''\<close> world0 \<open>[]\<close>]
  by (simp add: send_bg_eq world0_def str_int_503 rstrip_def isspace_def)

section \<open>Matching of the five rules\<close>

text \<open>
  Claim C3. The event of scenario 1 is matched by the incoming-call rule and by no other
  rule. Dispatching it returns normally, prints and submits one payload, and the payload
  reads as the JSON object with the members event, remote, callid and dialed of the
  scenario, in this order.
\<close>

theorem scenario1_incoming_call:
  \<open>filter (\<lambda>l. listener_matches l scenario1) (listeners :: 's event_listener list)
     = [incomming_call_listener]
   \<and> fire_recv_event listeners (source :: 's) scenario1 world0 =
       (Inr (),
        \<lparr>stdout = [''{"event": "Incoming Call", "remote": "+491701234567", "callid": "1700000000.12", "dialed": "100"}''],
         submitted = [''{"event": "Incoming Call", "remote": "+491701234567", "callid": "1700000000.12", "dialed": "100"}''],
         posted = []\<rparr>)
   \<and> json_string_object ''{"event": "Incoming Call", "remote": "+491701234567", "callid": "1700000000.12", "dialed": "100"}''
       = Some [(''event'', ''Incoming Call''), (''remote'', ''+491701234567''),
               (''callid'', ''1700000000.12''), (''dialed'', ''100'')]\<close>
  by (simp only: s1_filter s1_fire s1_json simp_thms)

text \<open>
  Claim C6, as the code has it. For an event named Newstate with ChannelStateDesc Ring,
  Context from-internal and an Exten field, the outgoing-call rule matches exactly when
  the Exten value holds five consecutive characters none of which is a line feed, the one
  character the dot of the pattern does not match. For an Exten value without a line feed
  that is: exactly when its length is at least 5.
\<close>

theorem outgoing_call_rule_exten:
  assumes \<open>name ev = ''Newstate''\<close>
    and \<open>keys ev ''ChannelStateDesc'' = Some ''Ring''\<close>
    and \<open>keys ev ''Context'' = Some ''from-internal''\<close>
    and \<open>keys ev ''Exten'' = Some x\<close>
  shows \<open>listener_matches (outgoing_call_listener :: 's event_listener) ev
           = (\<exists>i. i + 5 \<le> length x \<and> CHR 0x0A \<notin> set (take 5 (drop i x)))
         \<and> (CHR 0x0A \<notin> set x \<longrightarrow>
              listener_matches (outgoing_call_listener :: 's event_listener) ev = (5 \<le> length x))\<close>
  using assms by (simp add: matches_outgoing search_exten search_exten_no_lf [symmetric])

text \<open>The Exten values 12345 and 1234 of scenario 4: the first matches, the second does not.\<close>

theorem outgoing_call_rule_exten_witness:
  \<open>listener_matches (outgoing_call_listener :: unit event_listener)
      \<lparr>name = ''Newstate'',
       keys = map_of [(''ChannelStateDesc'', ''Ring''), (''Context'', ''from-internal''),
                      (''Exten'', ''12345'')]\<rparr>
   \<and> \<not> listener_matches (outgoing_call_listener :: unit event_listener)
      \<lparr>name = ''Newstate'',
       keys = map_of [(''ChannelStateDesc'', ''Ring''), (''Context'', ''from-internal''),
                      (''Exten'', ''1234'')]\<rparr>\<close>
  using
    outgoing_call_rule_exten [of
      \<open>\<lparr>name = ''Newstate'',
        keys = map_of [(''ChannelStateDesc'', ''Ring''), (''Context'', ''from-internal''),
                       (''Exten'', ''12345'')]\<rparr>\<close> \<open>''12345''\<close>, where ?'s = unit]
    outgoing_call_rule_exten [of
      \<open>\<lparr>name = ''Newstate'',
        keys = map_of [(''ChannelStateDesc'', ''Ring''), (''Context'', ''from-internal''),
                       (''Exten'', ''1234'')]\<rparr>\<close> \<open>''1234''\<close>, where ?'s = unit]
  by simp

text \<open>
  Claim C6, as stated, fails: an Exten value of five characters, the third a line feed,
  has length at least 5, and the outgoing-call rule does not match it.
\<close>

theorem outgoing_call_rule_exten_counterexample:
  \<open>5 \<le> length [CHR ''1'', CHR ''2'', CHR 0x0A, CHR ''4'', CHR ''5'']
   \<and> \<not> listener_matches (outgoing_call_listener :: unit event_listener)
      \<lparr>name = ''Newstate'',
       keys = map_of [(''ChannelStateDesc'', ''Ring''), (''Context'', ''from-internal''),
                      (''Exten'', [CHR ''1'', CHR ''2'', CHR 0x0A, CHR ''4'', CHR ''5''])]\<rparr>\<close>
  by (simp add: matches_outgoing exten_lf)

text \<open>
  Claim C7. Whatever the event, at most one of the five registered rules matches it: any
  two of them exclude each other. Dispatching one event therefore submits at most one
  payload.
\<close>

theorem at_most_one_rule_matches:
  \<open>length (filter (\<lambda>l. listener_matches l ev) (listeners :: 's event_listener list)) \<le> 1
   \<and> \<not> (listener_matches (incomming_call_listener :: 's event_listener) ev
          \<and> listener_matches (outgoing_call_listener :: 's event_listener) ev)
   \<and> \<not> (listener_matches (incomming_call_listener :: 's event_listener) ev
          \<and> listener_matches (hangup_listener :: 's event_listener) ev)
   \<and> \<not> (listener_matches (incomming_call_listener :: 's event_listener) ev
          \<and> listener_matches (accept_listener :: 's event_listener) ev)
   \<and> \<not> (listener_matches (incomming_call_listener :: 's event_listener) ev
          \<and> listener_matches (transfer_listener :: 's event_listener) ev)
   \<and> \<not> (listener_matches (outgoing_call_listener :: 's event_listener) ev
          \<and> listener_matches (hangup_listener :: 's event_listener) ev)
   \<and> \<not> (listener_matches (outgoing_call_listener :: 's event_listener) ev
          \<and> listener_matches (accept_listener :: 's event_listener) ev)
   \<and> \<not> (listener_matches (outgoing_call_listener :: 's event_listener) ev
          \<and> listener_matches (transfer_listener :: 's event_listener) ev)
   \<and> \<not> (listener_matches (hangup_listener :: 's event_listener) ev
          \<and> listener_matches (accept_listener :: 's event_listener) ev)
   \<and> \<not> (listener_matches (hangup_listener :: 's event_listener) ev
          \<and> listener_matches (transfer_listener :: 's event_listener) ev)
   \<and> \<not> (listener_matches (accept_listener :: 's event_listener) ev
          \<and> listener_matches (transfer_listener :: 's event_listener) ev)
   \<and> length (submitted (snd (fire_recv_event listeners (source :: 's) ev w)))
        \<le> Suc (length (submitted w))\<close>
proof -
  have one: \<open>length (filter (\<lambda>l. listener_matches l ev) (listeners :: 's event_listener list)) \<le> 1\<close>
    by (rule filter_le_1)
  have sends: \<open>list_all (\<lambda>l. sends_at_most_one (on_event l source ev) w)
      (listeners :: 's event_listener list)\<close>
    by (simp add: listeners_def handlers_send_at_most_one)
  have \<open>length (submitted (snd (fire_recv_event listeners source ev w)))
      \<le> Suc (length (submitted w))\<close>
    using one sends by (rule fire_one_match)
  with one show ?thesis
    by (auto simp: matches_simps)
qed

section \<open>Payloads read as JSON\<close>

lemma json_chars_plain:
  \<open>json_plain v \<Longrightarrow> json_chars (v @ CHR 0x22 # rest) = Some (v, rest)\<close>
  by (induction v) (simp_all add: json_plain_def)

lemma json_plain_literals:
  \<open>json_plain ''event''\<close> \<open>json_plain ''remote''\<close> \<open>json_plain ''callid''\<close>
  \<open>json_plain ''dialed''\<close> \<open>json_plain ''user''\<close> \<open>json_plain ''newuser''\<close>
  \<open>json_plain ''Incoming Call''\<close> \<open>json_plain ''Hangup''\<close> \<open>json_plain ''Accepted Call''\<close>
  \<open>json_plain ''Outgoing Call''\<close> \<open>json_plain ''Transfer Call''\<close>
  by (simp_all add: json_plain_def)

lemma skip_ws_simps:
  \<open>skip_ws [] = []\<close>
  \<open>skip_ws (c # cs) = (if json_ws c then skip_ws cs else c # cs)\<close>
  by (simp_all add: skip_ws_def)

text \<open>One member followed by a comma and a space, and the last member before the brace.\<close>

lemma json_members_next:
  assumes \<open>json_plain k\<close> \<open>json_plain v\<close>
  shows \<open>json_members (CHR 0x22 # k @ ''": "'' @ v @ ''", '' @ rest) =
           (case json_members (skip_ws rest) of
              None \<Rightarrow> None
            | Some (kvs, t) \<Rightarrow> Some ((k, v) # kvs, t))\<close>
proof -
  have 1: \<open>json_chars (k @ CHR 0x22 # CHR '':'' # CHR '' '' # CHR 0x22 # v @ ''", '' @ rest)
             = Some (k, CHR '':'' # CHR '' '' # CHR 0x22 # v @ ''", '' @ rest)\<close>
    using assms(1) by (rule json_chars_plain)
  have 2: \<open>json_chars (v @ CHR 0x22 # CHR '','' # CHR '' '' # rest)
             = Some (v, CHR '','' # CHR '' '' # rest)\<close>
    using assms(2) by (rule json_chars_plain)
  show ?thesis
    by (subst json_members.simps) (use 1 2 in \<open>simp add: expect_def json_ws_def skip_ws_simps\<close>)
qed

lemma json_members_last:
  assumes \<open>json_plain k\<close> \<open>json_plain v\<close>
  shows \<open>json_members (CHR 0x22 # k @ ''": "'' @ v @ ''"}'' @ rest) = Some ([(k, v)], rest)\<close>
proof -
  have 1: \<open>json_chars (k @ CHR 0x22 # CHR '':'' # CHR '' '' # CHR 0x22 # v @ ''"}'' @ rest)
             = Some (k, CHR '':'' # CHR '' '' # CHR 0x22 # v @ ''"}'' @ rest)\<close>
    using assms(1) by (rule json_chars_plain)
  have 2: \<open>json_chars (v @ CHR 0x22 # CHR ''}'' # rest) = Some (v, CHR ''}'' # rest)\<close>
    using assms(2) by (rule json_chars_plain)
  show ?thesis
    by (subst json_members.simps) (use 1 2 in \<open>simp add: expect_def json_ws_def skip_ws_simps\<close>)
qed

lemma json_members_cons:
  assumes \<open>json_plain k\<close> \<open>json_plain v\<close> \<open>json_members (CHR 0x22 # rest) = Some (kvs, t)\<close>
  shows \<open>json_members (CHR 0x22 # k @ ''": "'' @ v @ ''", '' @ CHR 0x22 # rest) = Some ((k, v) # kvs, t)\<close>
  using json_members_next [OF assms(1,2), of \<open>CHR 0x22 # rest\<close>] assms(3)
  by (simp add: json_ws_def skip_ws_simps)

lemma json_object_members:
  \<open>json_members (CHR 0x22 # s) = Some (kvs, []) \<Longrightarrow>
   json_string_object (CHR ''{'' # CHR 0x22 # s) = Some kvs\<close>
  by (simp add: json_string_object_def expect_def json_ws_def skip_ws_simps)



lemma json_accept4:
  assumes \<open>json_plain a\<close> \<open>json_plain b\<close> \<open>json_plain c\<close>
  shows \<open>json_string_object (''{"event": "Accepted Call", "callid": "'' @ a @ ''", "remote": "'' @ b @ ''", "dialed": "'' @ c @ ''"}'')
           = Some [(''event'', ''Accepted Call''), (''callid'', a), (''remote'', b), (''dialed'', c)]\<close>
  using json_object_members [OF
      json_members_cons [OF json_plain_literals(1) json_plain_literals(9)
      json_members_cons [OF json_plain_literals(3) assms(1)
      json_members_cons [OF json_plain_literals(2) assms(2)
      json_members_last [OF json_plain_literals(4) assms(3), of \<open>[]\<close>]]]]]
  by simp

lemma json_accept5:
  assumes \<open>json_plain a\<close> \<open>json_plain b\<close> \<open>json_plain c\<close> \<open>json_plain u\<close>
  shows \<open>json_string_object (''{"event": "Accepted Call", "callid": "'' @ a @ ''", "remote": "'' @ b @ ''", "dialed": "'' @ c @ ''", "user": "'' @ u @ ''"}'')
           = Some [(''event'', ''Accepted Call''), (''callid'', a), (''remote'', b), (''dialed'', c), (''user'', u)]\<close>
  using json_object_members [OF
      json_members_cons [OF json_plain_literals(1) json_plain_literals(9)
      json_members_cons [OF json_plain_literals(3) assms(1)
      json_members_cons [OF json_plain_literals(2) assms(2)
      json_members_cons [OF json_plain_literals(4) assms(3)
      json_members_last [OF json_plain_literals(5) assms(4), of \<open>[]\<close>]]]]]]
  by simp



lemma lower_char_plain:
  assumes \<open>c \<noteq> CHR 0x22 \<and> c \<noteq> CHR 0x5C \<and> 32 \<le> (of_char c :: nat)\<close>
  shows \<open>lower_char c \<noteq> CHR 0x22 \<and> lower_char c \<noteq> CHR 0x5C \<and> 32 \<le> (of_char (lower_char c) :: nat)\<close>
  using assms unfolding char_34 char_92 of_char_lower_char by (simp split: if_splits)

lemma json_plain_lower: \<open>json_plain s \<Longrightarrow> json_plain (lower s)\<close>
  unfolding json_plain_def lower_def list_all_iff using lower_char_plain by auto

lemma json_plain_takeWhile: \<open>json_plain s \<Longrightarrow> json_plain (takeWhile P s)\<close>
  unfolding json_plain_def list_all_iff by (auto dest: set_takeWhileD)

lemma json_plain_first_lower:
  \<open>json_plain s \<Longrightarrow> json_plain (lower (takeWhile (\<lambda>c. c \<noteq> CHR '' '') s))\<close>
  by (rule json_plain_lower [OF json_plain_takeWhile])

section \<open>A handler that reads an absent field\<close>

lemma on_incomming_call_missing:
  assumes \<open>keys ev ''CallerIDNum'' = None \<or> keys ev ''Uniqueid'' = None \<or> keys ev ''Exten'' = None\<close>
  shows \<open>\<exists>k. k \<in> set [''CallerIDNum'', ''Uniqueid'', ''Exten''] \<and> keys ev k = None
           \<and> on_incomming_call src ev w = (Inl (KeyError k), w)\<close>
proof (cases \<open>keys ev ''CallerIDNum''\<close>)
  case None
  with on_incomming_call_raises(1) [OF None] show ?thesis
    by (intro exI [of _ \<open>''CallerIDNum''\<close>]) simp
next
  case a: (Some a)
  show ?thesis
  proof (cases \<open>keys ev ''Uniqueid''\<close>)
    case None
    with on_incomming_call_raises(2) [OF a None] show ?thesis
      by (intro exI [of _ \<open>''Uniqueid''\<close>]) simp
  next
    case b: (Some b)
    with a assms have n: \<open>keys ev ''Exten'' = None\<close> by simp
    with on_incomming_call_raises(3) [OF a b n] show ?thesis
      by (intro exI [of _ \<open>''Exten''\<close>]) simp
  qed
qed

lemma on_hangup_missing:
  assumes \<open>keys ev ''Uniqueid'' = None \<or> keys ev ''CallerIDNum'' = None\<close>
  shows \<open>\<exists>k. k \<in> set [''Uniqueid'', ''CallerIDNum''] \<and> keys ev k = None
           \<and> on_hangup src ev w = (Inl (KeyError k), w)\<close>
proof (cases \<open>keys ev ''Uniqueid''\<close>)
  case None
  with on_hangup_raises(1) [OF None] show ?thesis
    by (intro exI [of _ \<open>''Uniqueid''\<close>]) simp
next
  case a: (Some a)
  with assms have n: \<open>keys ev ''CallerIDNum'' = None\<close> by simp
  with on_hangup_raises(2) [OF a n] show ?thesis
    by (intro exI [of _ \<open>''CallerIDNum''\<close>]) simp
qed

lemma on_accept_missing:
  assumes \<open>keys ev ''ConnectedLineName'' = None \<or> keys ev ''Uniqueid'' = None
           \<or> keys ev ''CallerIDNum'' = None \<or> keys ev ''Exten'' = None\<close>
  shows \<open>\<exists>k. k \<in> set [''ConnectedLineName'', ''Uniqueid'', ''CallerIDNum'', ''Exten'']
           \<and> keys ev k = None \<and> on_accept src ev w = (Inl (KeyError k), w)\<close>
proof (cases \<open>keys ev ''ConnectedLineName''\<close>)
  case None
  with on_accept_raises(1) [OF None] show ?thesis
    by (intro exI [of _ \<open>''ConnectedLineName''\<close>]) simp
next
  case n: (Some n)
  show ?thesis
  proof (cases \<open>keys ev ''Uniqueid''\<close>)
    case None
    with on_accept_raises(2) [OF n None] show ?thesis
      by (intro exI [of _ \<open>''Uniqueid''\<close>]) simp
  next
    case a: (Some a)
    show ?thesis
    proof (cases \<open>keys ev ''CallerIDNum''\<close>)
      case None
      with on_accept_raises(3) [OF n a None] show ?thesis
        by (intro exI [of _ \<open>''CallerIDNum''\<close>]) simp
    next
      case b: (Some b)
      with n a assms have x: \<open>keys ev ''Exten'' = None\<close> by simp
      with on_accept_raises(4) [OF n a b x] show ?thesis
        by (intro exI [of _ \<open>''Exten''\<close>]) simp
    qed
  qed
qed

lemma on_outgoing_call_missing:
  assumes \<open>keys ev ''Uniqueid'' = None \<or> keys ev ''Exten'' = None \<or> keys ev ''CallerIDName'' = None\<close>
  shows \<open>\<exists>k. k \<in> set [''Uniqueid'', ''Exten'', ''CallerIDName''] \<and> keys ev k = None
           \<and> on_outgoing_call src ev w = (Inl (KeyError k), w)\<close>
proof (cases \<open>keys ev ''Uniqueid''\<close>)
  case None
  with on_outgoing_call_raises(1) [OF None] show ?thesis
    by (intro exI [of _ \<open>''Uniqueid''\<close>]) simp
next
  case a: (Some a)
  show ?thesis
  proof (cases \<open>keys ev ''Exten''\<close>)
    case None
    with on_outgoing_call_raises(2) [OF a None] show ?thesis
      by (intro exI [of _ \<open>''Exten''\<close>]) simp
  next
    case b: (Some b)
    with a assms have n: \<open>keys ev ''CallerIDName'' = None\<close> by simp
    with on_outgoing_call_raises(3) [OF a b n] show ?thesis
      by (intro exI [of _ \<open>''CallerIDName''\<close>]) simp
  qed
qed

lemma on_transfer_missing:
  assumes \<open>keys ev ''TransfereeUniqueid'' = None \<or> keys ev ''TransferTargetCallerIDName'' = None\<close>
  shows \<open>\<exists>k. k \<in> set [''TransfereeUniqueid'', ''TransferTargetCallerIDName''] \<and> keys ev k = None
           \<and> on_transfer src ev w = (Inl (KeyError k), w)\<close>
proof (cases \<open>keys ev ''TransfereeUniqueid''\<close>)
  case None
  with on_transfer_raises(1) [OF None] show ?thesis
    by (intro exI [of _ \<open>''TransfereeUniqueid''\<close>]) simp
next
  case a: (Some a)
  with assms have n: \<open>keys ev ''TransferTargetCallerIDName'' = None\<close> by simp
  with on_transfer_raises(2) [OF a n] show ?thesis
    by (intro exI [of _ \<open>''TransferTargetCallerIDName''\<close>]) simp
qed

text \<open>
  Claim C1, as the code has it. When a field that a handler reads is absent from the
  event, the handler raises \<open>KeyError\<close> for an absent field before it calls \<open>send\<close>: the
  exception leaves the handler, and the world is as it was, so no payload is printed or
  submitted and nothing is logged.
\<close>

theorem handler_missing_field_raises:
  \<open>(keys ev ''CallerIDNum'' = None \<or> keys ev ''Uniqueid'' = None \<or> keys ev ''Exten'' = None \<longrightarrow>
      (\<exists>k. k \<in> set [''CallerIDNum'', ''Uniqueid'', ''Exten''] \<and> keys ev k = None
           \<and> on_incomming_call source ev w = (Inl (KeyError k), w)))
   \<and> (keys ev ''Uniqueid'' = None \<or> keys ev ''CallerIDNum'' = None \<longrightarrow>
      (\<exists>k. k \<in> set [''Uniqueid'', ''CallerIDNum''] \<and> keys ev k = None
           \<and> on_hangup source ev w = (Inl (KeyError k), w)))
   \<and> (keys ev ''ConnectedLineName'' = None \<or> keys ev ''Uniqueid'' = None
         \<or> keys ev ''CallerIDNum'' = None \<or> keys ev ''Exten'' = None \<longrightarrow>
      (\<exists>k. k \<in> set [''ConnectedLineName'', ''Uniqueid'', ''CallerIDNum'', ''Exten'']
           \<and> keys ev k = None \<and> on_accept source ev w = (Inl (KeyError k), w)))
   \<and> (keys ev ''Uniqueid'' = None \<or> keys ev ''Exten'' = None \<or> keys ev ''CallerIDName'' = None \<longrightarrow>
      (\<exists>k. k \<in> set [''Uniqueid'', ''Exten'', ''CallerIDName''] \<and> keys ev k = None
           \<and> on_outgoing_call source ev w = (Inl (KeyError k), w)))
   \<and> (keys ev ''TransfereeUniqueid'' = None \<or> keys ev ''TransferTargetCallerIDName'' = None \<longrightarrow>
      (\<exists>k. k \<in> set [''TransfereeUniqueid'', ''TransferTargetCallerIDName''] \<and> keys ev k = None
           \<and> on_transfer source ev w = (Inl (KeyError k), w)))\<close>
  by (intro conjI impI on_incomming_call_missing on_hangup_missing on_accept_missing
      on_outgoing_call_missing on_transfer_missing)

text \<open>
  An event with the single field Context: every handler raises \<open>KeyError\<close> and leaves
  the world as it was.
\<close>

theorem handler_missing_field_raises_witness:
  \<open>(\<exists>k. on_incomming_call () context_only_event world0 = (Inl (KeyError k), world0))
   \<and> (\<exists>k. on_hangup () context_only_event world0 = (Inl (KeyError k), world0))
   \<and> (\<exists>k. on_accept () context_only_event world0 = (Inl (KeyError k), world0))
   \<and> (\<exists>k. on_outgoing_call () context_only_event world0 = (Inl (KeyError k), world0))
   \<and> (\<exists>k. on_transfer () context_only_event world0 = (Inl (KeyError k), world0))\<close>
proof -
  have absent:
    \<open>keys context_only_event ''CallerIDNum'' = None\<close>
    \<open>keys context_only_event ''Uniqueid'' = None\<close>
    \<open>keys context_only_event ''ConnectedLineName'' = None\<close>
    \<open>keys context_only_event ''TransfereeUniqueid'' = None\<close>
    by (simp_all add: context_only_event_def)
  show ?thesis
    using handler_missing_field_raises [of context_only_event \<open>()\<close> world0] absent
    by blast
qed

text \<open>
  Claim C1, as stated, fails. A Hangup event from the trunk that has no Uniqueid field is
  matched by the hangup rule, and its handler does not return: it raises \<open>KeyError\<close>, and
  it has printed nothing.
\<close>

theorem handler_missing_field_counterexample:
  \<open>listener_matches (hangup_listener :: unit event_listener)
      \<lparr>name = ''Hangup'',
       keys = map_of [(''Context'', ''from-trunk''), (''CallerIDNum'', ''+491701234567'')]\<rparr>
   \<and> on_hangup ()
      \<lparr>name = ''Hangup'',
       keys = map_of [(''Context'', ''from-trunk''), (''CallerIDNum'', ''+491701234567'')]\<rparr>
      \<lparr>stdout = [], submitted = [], posted = []\<rparr>
     = (Inl (KeyError ''Uniqueid''), \<lparr>stdout = [], submitted = [], posted = []\<rparr>)\<close>
  by (simp add: matches_hangup on_hangup_raises(1))

section \<open>The payloads of the handlers\<close>

lemma full_event_keys:
  \<open>keys full_event ''CallerIDNum'' = Some ''+491701234567''\<close>
  \<open>keys full_event ''Uniqueid'' = Some ''1700000000.12''\<close>
  \<open>keys full_event ''Exten'' = Some ''100''\<close>
  \<open>keys full_event ''ConnectedLineName'' = Some ''Jane Doe''\<close>
  \<open>keys full_event ''CallerIDName'' = Some ''Alice Example''\<close>
  \<open>keys full_event ''TransfereeUniqueid'' = Some ''1700000000.15''\<close>
  \<open>keys full_event ''TransferTargetCallerIDName'' = Some ''Bob Smith Extra''\<close>
  by (simp_all add: full_event_def)


lemma example_values_plain:
  \<open>json_plain ''+491701234567''\<close> \<open>json_plain ''1700000000.12''\<close> \<open>json_plain ''100''\<close>
  \<open>json_plain ''Jane Doe''\<close> \<open>json_plain ''Alice Example''\<close> \<open>json_plain ''1700000000.15''\<close>
  \<open>json_plain ''Bob Smith Extra''\<close> \<open>json_plain ''<unknown>''\<close>
  by (simp_all add: json_plain_def)

lemma example_first_words:
  \<open>lower (takeWhile (\<lambda>c. c \<noteq> CHR '' '') ''Jane Doe'') = ''jane''\<close>
  \<open>lower (takeWhile (\<lambda>c. c \<noteq> CHR '' '') ''Alice Example'') = ''alice''\<close>
  \<open>lower (takeWhile (\<lambda>c. c \<noteq> CHR '' '') ''Bob Smith Extra'') = ''bob''\<close>
  \<open>lower ''Jane'' = ''jane''\<close> \<open>lower ''Alice'' = ''alice''\<close> \<open>lower ''Bob'' = ''bob''\<close>
  by code_simp+






section \<open>The first word of a name\<close>

lemma first_word_spec_agree:
  assumes \<open>list_all (\<lambda>c. isspace c \<longrightarrow> c = CHR '' '') s\<close>
  shows \<open>lower (takeWhile (\<lambda>c. c \<noteq> CHR '' '') s) = spec_first_word s\<close>
proof -
  have sp: \<open>isspace (CHR '' '')\<close> by (simp add: isspace_def)
  have \<open>takeWhile (\<lambda>c. c \<noteq> CHR '' '') s = takeWhile (\<lambda>c. \<not> isspace c) s\<close>
    using assms sp by (intro takeWhile_cong refl) (auto simp: list_all_iff)
  then show ?thesis by (simp add: spec_first_word_def)
qed

lemma transfer_tab_keys:
  \<open>keys transfer_tab_event ''TransfereeUniqueid'' = Some ''1700000000.15''\<close>
  \<open>keys transfer_tab_event ''TransferTargetCallerIDName'' = Some (''Bob'' @ [CHR 0x09] @ ''Smith'')\<close>
  by (simp_all add: transfer_tab_event_def)

lemma tab_name_words:
  \<open>lower (takeWhile (\<lambda>c. c \<noteq> CHR '' '') (''Bob'' @ [CHR 0x09] @ ''Smith'')) = ''bob'' @ [CHR 0x09] @ ''smith''\<close>
  \<open>spec_first_word (''Bob'' @ [CHR 0x09] @ ''Smith'') = ''bob''\<close>
  \<open>spec_first_word ''Bob Smith Extra'' = ''bob''\<close>
  by code_simp+

text \<open>
  Claim C4, as the code has it. The user of an accepted call (when the connected-line
  name is not the placeholder), the user of an outgoing call and the new user of a
  transfer are the name up to its first space character, lower-cased: the value of
  \<open>name.split(' ', 1)[0].lower()\<close>. A name without a space character is used whole, and
  a tab or any other whitespace splits nothing. When the only whitespace of the name is
  the space character, this is the first word as the specification words it.
\<close>

theorem first_word_splits_on_space:
  \<open>(keys ev ''ConnectedLineName'' = Some cln \<and> cln \<noteq> ''<unknown>'' \<and> keys ev ''Uniqueid'' = Some uid
      \<and> keys ev ''CallerIDNum'' = Some cid \<and> keys ev ''Exten'' = Some ext \<longrightarrow>
      on_accept source ev w =
        send (''{"event": "Accepted Call", "callid": "'' @ uid @ ''", "remote": "'' @ cid @ ''", "dialed": "'' @ ext
              @ ''", "user": "'' @ lower (takeWhile (\<lambda>c. c \<noteq> CHR '' '') cln) @ ''"}'') w)
   \<and> (keys ev ''Uniqueid'' = Some uid \<and> keys ev ''Exten'' = Some ext \<and> keys ev ''CallerIDName'' = Some cnm \<longrightarrow>
      on_outgoing_call source ev w =
        send (''{"event": "Outgoing Call", "callid": "'' @ uid @ ''", "remote": "'' @ ext
              @ ''", "user": "'' @ lower (takeWhile (\<lambda>c. c \<noteq> CHR '' '') cnm) @ ''"}'') w)
   \<and> (keys ev ''TransfereeUniqueid'' = Some tid \<and> keys ev ''TransferTargetCallerIDName'' = Some tnm \<longrightarrow>
      on_transfer source ev w =
        send (''{"event": "Transfer Call", "callid": "'' @ tid
              @ ''", "newuser": "'' @ lower (takeWhile (\<lambda>c. c \<noteq> CHR '' '') tnm) @ ''"}'') w)
   \<and> split_first_lower s = Inr (lower (takeWhile (\<lambda>c. c \<noteq> CHR '' '') s))
   \<and> (CHR '' '' \<notin> set s \<longrightarrow> split_first_lower s = Inr (lower s))
   \<and> (list_all (\<lambda>c. isspace c \<longrightarrow> c = CHR '' '') s \<longrightarrow>
        split_first_lower s = Inr (spec_first_word s))\<close>
proof (intro conjI impI; (elim conjE)?)
  assume \<open>keys ev ''ConnectedLineName'' = Some cln\<close> \<open>cln \<noteq> ''<unknown>''\<close> \<open>keys ev ''Uniqueid'' = Some uid\<close>
    \<open>keys ev ''CallerIDNum'' = Some cid\<close> \<open>keys ev ''Exten'' = Some ext\<close>
  then show \<open>on_accept source ev w =
        send (''{"event": "Accepted Call", "callid": "'' @ uid @ ''", "remote": "'' @ cid @ ''", "dialed": "'' @ ext
              @ ''", "user": "'' @ lower (takeWhile (\<lambda>c. c \<noteq> CHR '' '') cln) @ ''"}'') w\<close>
    by (rule on_accept_named)
next
  assume \<open>keys ev ''Uniqueid'' = Some uid\<close> \<open>keys ev ''Exten'' = Some ext\<close> \<open>keys ev ''CallerIDName'' = Some cnm\<close>
  then show \<open>on_outgoing_call source ev w =
        send (''{"event": "Outgoing Call", "callid": "'' @ uid @ ''", "remote": "'' @ ext
              @ ''", "user": "'' @ lower (takeWhile (\<lambda>c. c \<noteq> CHR '' '') cnm) @ ''"}'') w\<close>
    by (rule on_outgoing_call_ok)
next
  assume \<open>keys ev ''TransfereeUniqueid'' = Some tid\<close> \<open>keys ev ''TransferTargetCallerIDName'' = Some tnm\<close>
  then show \<open>on_transfer source ev w =
        send (''{"event": "Transfer Call", "callid": "'' @ tid
              @ ''", "newuser": "'' @ lower (takeWhile (\<lambda>c. c \<noteq> CHR '' '') tnm) @ ''"}'') w\<close>
    by (rule on_transfer_ok)
next
  show \<open>split_first_lower s = Inr (lower (takeWhile (\<lambda>c. c \<noteq> CHR '' '') s))\<close>
    by (rule split_first_lower_eq)
next
  assume \<open>CHR '' '' \<notin> set s\<close>
  then show \<open>split_first_lower s = Inr (lower s)\<close>
    by (simp add: split_first_lower_eq takeWhile_no_sep)
next
  assume \<open>list_all (\<lambda>c. isspace c \<longrightarrow> c = CHR '' '') s\<close>
  then show \<open>split_first_lower s = Inr (spec_first_word s)\<close>
    by (simp add: split_first_lower_eq first_word_spec_agree)
qed

text \<open>
  Scenario 5 and its like: the names Jane Doe, Alice Example and Bob Smith Extra give the
  users jane, alice and bob, which is also the first word in the specification's wording;
  the name Alice, which has no space, gives alice.
\<close>

theorem first_word_splits_on_space_witness:
  \<open>on_accept () full_event world0 =
     send ''{"event": "Accepted Call", "callid": "1700000000.12", "remote": "+491701234567", "dialed": "100", "user": "jane"}'' world0
   \<and> on_outgoing_call () full_event world0 =
     send ''{"event": "Outgoing Call", "callid": "1700000000.12", "remote": "100", "user": "alice"}'' world0
   \<and> on_transfer () full_event world0 =
     send ''{"event": "Transfer Call", "callid": "1700000000.15", "newuser": "bob"}'' world0
   \<and> split_first_lower ''Bob Smith Extra'' = Inr ''bob''
   \<and> spec_first_word ''Bob Smith Extra'' = ''bob''
   \<and> split_first_lower ''Alice'' = Inr ''alice''\<close>
proof -
  have named: \<open>''Jane Doe'' \<noteq> ''<unknown>''\<close> by simp
  have spaces: \<open>list_all (\<lambda>c. isspace c \<longrightarrow> c = CHR '' '') ''Bob Smith Extra''\<close>
    by (simp add: isspace_def)
  have none: \<open>CHR '' '' \<notin> set ''Alice''\<close> by simp
  note a = first_word_splits_on_space [of full_event \<open>''Jane Doe''\<close> \<open>''1700000000.12''\<close>
      \<open>''+491701234567''\<close> \<open>''100''\<close> \<open>()\<close> world0 \<open>''Alice Example''\<close> \<open>''1700000000.15''\<close>
      \<open>''Bob Smith Extra''\<close> \<open>''Bob Smith Extra''\<close>]
  note b = first_word_splits_on_space [of full_event \<open>''Jane Doe''\<close> \<open>''1700000000.12''\<close>
      \<open>''+491701234567''\<close> \<open>''100''\<close> \<open>()\<close> world0 \<open>''Alice Example''\<close> \<open>''1700000000.15''\<close>
      \<open>''Bob Smith Extra''\<close> \<open>''Alice''\<close>]
  show ?thesis
    using a b named spaces none
    by (simp add: full_event_keys example_first_words tab_name_words)
qed

text \<open>
  Claim C4, as stated, fails. For the transfer target Bob, a tab, Smith the new user sent
  is bob, a tab, smith, where splitting on the first whitespace run gives bob.
\<close>

theorem first_word_counterexample:
  \<open>on_transfer () transfer_tab_event world0 =
     send (''{"event": "Transfer Call", "callid": "1700000000.15", "newuser": "'' @
           (''bob'' @ [CHR 0x09] @ ''smith'') @ ''"}'') world0
   \<and> split_first_lower (''Bob'' @ [CHR 0x09] @ ''Smith'') = Inr (''bob'' @ [CHR 0x09] @ ''smith'')
   \<and> spec_first_word (''Bob'' @ [CHR 0x09] @ ''Smith'') = ''bob''
   \<and> ''bob'' @ [CHR 0x09] @ ''smith'' \<noteq> ''bob''\<close>
  using on_transfer_ok [OF transfer_tab_keys, of \<open>()\<close> world0]
  by (simp only: tab_name_words split_first_lower_eq) simp

section \<open>The accepted call and its placeholder\<close>

lemma accept_event_keys:
  \<open>name (accept_event cln) = ''Newstate''\<close>
  \<open>keys (accept_event cln) ''Context'' = Some ''from-trunk''\<close>
  \<open>keys (accept_event cln) ''ChannelStateDesc'' = Some ''Up''\<close>
  \<open>keys (accept_event cln) ''CallerIDNum'' = Some ''+491701234567''\<close>
  \<open>keys (accept_event cln) ''Uniqueid'' = Some ''1700000000.12''\<close>
  \<open>keys (accept_event cln) ''Exten'' = Some ''100''\<close>
  \<open>keys (accept_event cln) ''ConnectedLineName'' = Some cln\<close>
  by (simp_all add: accept_event_def)

lemma accept_event_matches:
  \<open>listener_matches accept_listener (accept_event cln)\<close>
  by (simp add: matches_accept accept_event_keys)

lemma listener_call_accept:
  \<open>listener_matches (accept_listener :: 's event_listener) ev \<Longrightarrow>
   listener_call accept_listener (src :: 's) ev w = on_accept src ev w\<close>
  by (simp add: listener_call_def)

lemma example_names_lowered:
  \<open>lower [] = []\<close> \<open>lower ''unknown'' = ''unknown''\<close> \<open>lower ''<Unknown>'' = ''<unknown>''\<close>
  by code_simp+

text \<open>
  Claim C5, as the code has it. For an event that the accepted-call rule matches and that
  has the fields the handler reads: when ConnectedLineName is the placeholder
  \<open><unknown>\<close>, the handler sends the template with the members event, callid, remote and
  dialed, which has no user member; otherwise it sends the template with these four and
  a user, the part of ConnectedLineName before its first space character, lower-cased.
  When the field values hold no double quote, no backslash and no control character, the
  payload read as JSON has exactly these members.
\<close>

theorem accepted_call_payload:
  assumes \<open>listener_matches (accept_listener :: 's event_listener) ev\<close>
    and \<open>keys ev ''ConnectedLineName'' = Some cln\<close>
    and \<open>keys ev ''Uniqueid'' = Some uid\<close>
    and \<open>keys ev ''CallerIDNum'' = Some cid\<close>
    and \<open>keys ev ''Exten'' = Some ext\<close>
  shows
    \<open>(cln = ''<unknown>'' \<longrightarrow>
        listener_call accept_listener (source :: 's) ev w =
          send (''{"event": "Accepted Call", "callid": "'' @ uid @ ''", "remote": "'' @ cid @ ''", "dialed": "'' @ ext @ ''"}'') w)
     \<and> (cln \<noteq> ''<unknown>'' \<longrightarrow>
        listener_call accept_listener (source :: 's) ev w =
          send (''{"event": "Accepted Call", "callid": "'' @ uid @ ''", "remote": "'' @ cid @ ''", "dialed": "'' @ ext
                @ ''", "user": "'' @ lower (takeWhile (\<lambda>c. c \<noteq> CHR '' '') cln) @ ''"}'') w)
     \<and> (json_plain uid \<and> json_plain cid \<and> json_plain ext \<longrightarrow>
        json_string_object
          (''{"event": "Accepted Call", "callid": "'' @ uid @ ''", "remote": "'' @ cid @ ''", "dialed": "'' @ ext @ ''"}'')
        = Some [(''event'', ''Accepted Call''), (''callid'', uid), (''remote'', cid), (''dialed'', ext)])
     \<and> (json_plain uid \<and> json_plain cid \<and> json_plain ext \<and> json_plain cln \<longrightarrow>
        json_string_object
          (''{"event": "Accepted Call", "callid": "'' @ uid @ ''", "remote": "'' @ cid @ ''", "dialed": "'' @ ext
                @ ''", "user": "'' @ lower (takeWhile (\<lambda>c. c \<noteq> CHR '' '') cln) @ ''"}'')
        = Some [(''event'', ''Accepted Call''), (''callid'', uid), (''remote'', cid), (''dialed'', ext),
                (''user'', lower (takeWhile (\<lambda>c. c \<noteq> CHR '' '') cln))])\<close>
proof (intro conjI impI; (elim conjE)?)
  assume \<open>cln = ''<unknown>''\<close>
  with assms(2) have \<open>keys ev ''ConnectedLineName'' = Some ''<unknown>''\<close> by simp
  then show \<open>listener_call accept_listener source ev w =
          send (''{"event": "Accepted Call", "callid": "'' @ uid @ ''", "remote": "'' @ cid @ ''", "dialed": "'' @ ext @ ''"}'') w\<close>
    by (intro trans [OF listener_call_accept [OF assms(1)] on_accept_unknown] assms)
next
  assume \<open>cln \<noteq> ''<unknown>''\<close>
  then show \<open>listener_call accept_listener source ev w =
          send (''{"event": "Accepted Call", "callid": "'' @ uid @ ''", "remote": "'' @ cid @ ''", "dialed": "'' @ ext
                @ ''", "user": "'' @ lower (takeWhile (\<lambda>c. c \<noteq> CHR '' '') cln) @ ''"}'') w\<close>
    by (intro trans [OF listener_call_accept [OF assms(1)] on_accept_named] assms)
next
  assume \<open>json_plain uid\<close> \<open>json_plain cid\<close> \<open>json_plain ext\<close>
  then show \<open>json_string_object
          (''{"event": "Accepted Call", "callid": "'' @ uid @ ''", "remote": "'' @ cid @ ''", "dialed": "'' @ ext @ ''"}'')
        = Some [(''event'', ''Accepted Call''), (''callid'', uid), (''remote'', cid), (''dialed'', ext)]\<close>
    by (rule json_accept4)
next
  assume \<open>json_plain uid\<close> \<open>json_plain cid\<close> \<open>json_plain ext\<close> \<open>json_plain cln\<close>
  then show \<open>json_string_object
          (''{"event": "Accepted Call", "callid": "'' @ uid @ ''", "remote": "'' @ cid @ ''", "dialed": "'' @ ext
                @ ''", "user": "'' @ lower (takeWhile (\<lambda>c. c \<noteq> CHR '' '') cln) @ ''"}'')
        = Some [(''event'', ''Accepted Call''), (''callid'', uid), (''remote'', cid), (''dialed'', ext),
                (''user'', lower (takeWhile (\<lambda>c. c \<noteq> CHR '' '') cln))]\<close>
    by (intro json_accept5 json_plain_first_lower)
qed

text \<open>
  Scenario 3: with the placeholder the payload has no user member, with Jane Doe it has
  the user jane.
\<close>

theorem accepted_call_payload_witness:
  \<open>listener_call accept_listener () (accept_event ''<unknown>'') world0 =
     send ''{"event": "Accepted Call", "callid": "1700000000.12", "remote": "+491701234567", "dialed": "100"}'' world0
   \<and> json_string_object ''{"event": "Accepted Call", "callid": "1700000000.12", "remote": "+491701234567", "dialed": "100"}''
     = Some [(''event'', ''Accepted Call''), (''callid'', ''1700000000.12''), (''remote'', ''+491701234567''), (''dialed'', ''100'')]
   \<and> listener_call accept_listener () (accept_event ''Jane Doe'') world0 =
     send ''{"event": "Accepted Call", "callid": "1700000000.12", "remote": "+491701234567", "dialed": "100", "user": "jane"}'' world0
   \<and> json_string_object ''{"event": "Accepted Call", "callid": "1700000000.12", "remote": "+491701234567", "dialed": "100", "user": "jane"}''
     = Some [(''event'', ''Accepted Call''), (''callid'', ''1700000000.12''), (''remote'', ''+491701234567''), (''dialed'', ''100''), (''user'', ''jane'')]\<close>
proof -
  have named: \<open>''Jane Doe'' \<noteq> ''<unknown>''\<close> by simp
  note u = accepted_call_payload [OF accept_event_matches accept_event_keys(7,5,4,6),
      of \<open>''<unknown>''\<close> \<open>()\<close> world0]
  note j = accepted_call_payload [OF accept_event_matches accept_event_keys(7,5,4,6),
      of \<open>''Jane Doe''\<close> \<open>()\<close> world0]
  show ?thesis
    using u j named by (simp add: example_values_plain example_first_words)
qed

lemma accept_injected_keys:
  \<open>name accept_injected_event = ''Newstate''\<close>
  \<open>keys accept_injected_event ''Context'' = Some ''from-trunk''\<close>
  \<open>keys accept_injected_event ''ChannelStateDesc'' = Some ''Up''\<close>
  \<open>keys accept_injected_event ''ConnectedLineName'' = Some ''<unknown>''\<close>
  \<open>keys accept_injected_event ''Uniqueid'' = Some ''1", "user": "evil''\<close>
  \<open>keys accept_injected_event ''CallerIDNum'' = Some ''x''\<close>
  \<open>keys accept_injected_event ''Exten'' = Some ''100''\<close>
  by (simp_all add: accept_injected_event_def)

lemma accept_injected_matches:
  \<open>listener_matches accept_listener accept_injected_event\<close>
  by (simp add: matches_accept accept_injected_keys)

lemma tab_name_jane:
  \<open>lower (takeWhile (\<lambda>c. c \<noteq> CHR '' '') (''Jane'' @ [CHR 0x09] @ ''Doe'')) = ''jane'' @ [CHR 0x09] @ ''doe''\<close>
  \<open>spec_first_word (''Jane'' @ [CHR 0x09] @ ''Doe'') = ''jane''\<close>
  by code_simp+

lemma tab_name_other: \<open>''Jane'' @ [CHR 0x09] @ ''Doe'' \<noteq> ''<unknown>''\<close>
  by simp

lemma json_injected_user:
  \<open>json_string_object ''{"event": "Accepted Call", "callid": "1", "user": "evil", "remote": "x", "dialed": "100"}''
     = Some [(''event'', ''Accepted Call''), (''callid'', ''1''), (''user'', ''evil''),
             (''remote'', ''x''), (''dialed'', ''100'')]\<close>
  apply (simp add: json_string_object_def expect_def skip_ws_simps json_ws_def)
  apply (subst json_members.simps, simp add: expect_def skip_ws_simps json_ws_def)+
  done

text \<open>
  Claim C5, as stated, fails, on both sides of the comparison. The accepted-call rule
  matches both events. For the connected-line name Jane, a tab, Doe the user sent is
  jane, a tab, doe, where the first word is jane. For the placeholder and a Uniqueid
  that holds quotes, the payload read as JSON has a user member.
\<close>

theorem accepted_call_payload_counterexample:
  \<open>listener_matches (accept_listener :: unit event_listener)
      (accept_event (''Jane'' @ [CHR 0x09] @ ''Doe''))
   \<and> listener_call accept_listener () (accept_event (''Jane'' @ [CHR 0x09] @ ''Doe'')) world0 =
       send (''{"event": "Accepted Call", "callid": "1700000000.12", "remote": "+491701234567", "dialed": "100", "user": "''
             @ (''jane'' @ [CHR 0x09] @ ''doe'') @ ''"}'') world0
   \<and> spec_first_word (''Jane'' @ [CHR 0x09] @ ''Doe'') = ''jane''
   \<and> ''jane'' @ [CHR 0x09] @ ''doe'' \<noteq> ''jane''
   \<and> listener_matches (accept_listener :: unit event_listener) accept_injected_event
   \<and> keys accept_injected_event ''ConnectedLineName'' = Some ''<unknown>''
   \<and> listener_call accept_listener () accept_injected_event world0 =
       send ''{"event": "Accepted Call", "callid": "1", "user": "evil", "remote": "x", "dialed": "100"}'' world0
   \<and> json_string_object ''{"event": "Accepted Call", "callid": "1", "user": "evil", "remote": "x", "dialed": "100"}''
       = Some [(''event'', ''Accepted Call''), (''callid'', ''1''), (''user'', ''evil''),
               (''remote'', ''x''), (''dialed'', ''100'')]\<close>
proof -
  have tab: \<open>listener_call accept_listener () (accept_event (''Jane'' @ [CHR 0x09] @ ''Doe'')) world0 =
       send (''{"event": "Accepted Call", "callid": "1700000000.12", "remote": "+491701234567", "dialed": "100", "user": "''
             @ (''jane'' @ [CHR 0x09] @ ''doe'') @ ''"}'') world0\<close>
    using trans [OF listener_call_accept [OF accept_event_matches]
        on_accept_named [OF accept_event_keys(7) tab_name_other accept_event_keys(5,4,6)],
        of \<open>()\<close> world0]
    by (simp only: tab_name_jane) simp
  have inj: \<open>listener_call accept_listener () accept_injected_event world0 =
       send ''{"event": "Accepted Call", "callid": "1", "user": "evil", "remote": "x", "dialed": "100"}'' world0\<close>
    using trans [OF listener_call_accept [OF accept_injected_matches]
        on_accept_unknown [OF accept_injected_keys(4,5,6,7)], of \<open>()\<close> world0]
    by simp
  show ?thesis
    using tab inj accept_event_matches [of \<open>''Jane'' @ [CHR 0x09] @ ''Doe''\<close>, where ?'a = unit]
      accept_injected_matches [where ?'a = unit] tab_name_jane(2) json_injected_user
    by (simp add: accept_injected_keys)
qed

text \<open>
  Claim C10. The placeholder is compared as it is written: for an event that the
  accepted-call rule matches and whose ConnectedLineName is any string other than
  \<open><unknown>\<close>, the payload sent has a user member, the lower-cased first word of that
  string; for the empty string the user is the empty string.
\<close>

theorem sentinel_comparison_is_exact:
  assumes \<open>listener_matches (accept_listener :: 's event_listener) ev\<close>
    and \<open>keys ev ''ConnectedLineName'' = Some cln\<close>
    and \<open>cln \<noteq> ''<unknown>''\<close>
    and \<open>keys ev ''Uniqueid'' = Some uid\<close>
    and \<open>keys ev ''CallerIDNum'' = Some cid\<close>
    and \<open>keys ev ''Exten'' = Some ext\<close>
  shows
    \<open>listener_call accept_listener (source :: 's) ev w =
        send (''{"event": "Accepted Call", "callid": "'' @ uid @ ''", "remote": "'' @ cid @ ''", "dialed": "'' @ ext
              @ ''", "user": "'' @ lower (takeWhile (\<lambda>c. c \<noteq> CHR '' '') cln) @ ''"}'') w
     \<and> (cln = [] \<longrightarrow>
        listener_call accept_listener (source :: 's) ev w =
          send (''{"event": "Accepted Call", "callid": "'' @ uid @ ''", "remote": "'' @ cid @ ''", "dialed": "'' @ ext
                @ ''", "user": ""}'') w)
     \<and> (json_plain uid \<and> json_plain cid \<and> json_plain ext \<and> json_plain cln \<longrightarrow>
        json_string_object
          (''{"event": "Accepted Call", "callid": "'' @ uid @ ''", "remote": "'' @ cid @ ''", "dialed": "'' @ ext
                @ ''", "user": "'' @ lower (takeWhile (\<lambda>c. c \<noteq> CHR '' '') cln) @ ''"}'')
        = Some [(''event'', ''Accepted Call''), (''callid'', uid), (''remote'', cid), (''dialed'', ext),
                (''user'', lower (takeWhile (\<lambda>c. c \<noteq> CHR '' '') cln))])\<close>
proof -
  have call: \<open>listener_call accept_listener source ev w =
        send (''{"event": "Accepted Call", "callid": "'' @ uid @ ''", "remote": "'' @ cid @ ''", "dialed": "'' @ ext
              @ ''", "user": "'' @ lower (takeWhile (\<lambda>c. c \<noteq> CHR '' '') cln) @ ''"}'') w\<close>
    by (rule trans [OF listener_call_accept [OF assms(1)] on_accept_named [OF assms(2,3,4,5,6)]])
  have empty: \<open>listener_call accept_listener source ev w =
          send (''{"event": "Accepted Call", "callid": "'' @ uid @ ''", "remote": "'' @ cid @ ''", "dialed": "'' @ ext
                @ ''", "user": ""}'') w\<close> if \<open>cln = []\<close>
    using call that by (simp add: lower_def)
  have members: \<open>json_string_object
          (''{"event": "Accepted Call", "callid": "'' @ uid @ ''", "remote": "'' @ cid @ ''", "dialed": "'' @ ext
                @ ''", "user": "'' @ lower (takeWhile (\<lambda>c. c \<noteq> CHR '' '') cln) @ ''"}'')
        = Some [(''event'', ''Accepted Call''), (''callid'', uid), (''remote'', cid), (''dialed'', ext),
                (''user'', lower (takeWhile (\<lambda>c. c \<noteq> CHR '' '') cln))]\<close>
    if \<open>json_plain uid\<close> \<open>json_plain cid\<close> \<open>json_plain ext\<close> \<open>json_plain cln\<close>
    by (rule json_accept5 [OF that(1,2,3) json_plain_first_lower [OF that(4)]])
  from call empty members show ?thesis by blast
qed

text \<open>
  The empty string, unknown without its brackets, and the placeholder with a capital
  letter are names like any other: each payload has a user.
\<close>

theorem sentinel_comparison_is_exact_witness:
  \<open>listener_call accept_listener () (accept_event []) world0 =
     send ''{"event": "Accepted Call", "callid": "1700000000.12", "remote": "+491701234567", "dialed": "100", "user": ""}'' world0
   \<and> listener_call accept_listener () (accept_event ''unknown'') world0 =
     send ''{"event": "Accepted Call", "callid": "1700000000.12", "remote": "+491701234567", "dialed": "100", "user": "unknown"}'' world0
   \<and> listener_call accept_listener () (accept_event ''<Unknown>'') world0 =
     send ''{"event": "Accepted Call", "callid": "1700000000.12", "remote": "+491701234567", "dialed": "100", "user": "<unknown>"}'' world0\<close>
proof -
  have other: \<open>[] \<noteq> ''<unknown>''\<close> \<open>''unknown'' \<noteq> ''<unknown>''\<close> \<open>''<Unknown>'' \<noteq> ''<unknown>''\<close>
    by simp_all
  note e = sentinel_comparison_is_exact [OF accept_event_matches accept_event_keys(7) other(1)
      accept_event_keys(5,4,6), of \<open>()\<close> world0]
  note u = sentinel_comparison_is_exact [OF accept_event_matches accept_event_keys(7) other(2)
      accept_event_keys(5,4,6), of \<open>()\<close> world0]
  note c = sentinel_comparison_is_exact [OF accept_event_matches accept_event_keys(7) other(3)
      accept_event_keys(5,4,6), of \<open>()\<close> world0]
  show ?thesis
    using e u c by (simp add: example_names_lowered)
qed

end
